theory Spec2Isabelle
  imports Main
begin

text \<open>
  The habit-completion and streak engine of the habit tracker's backend: the service
  functions of \<open>services.py\<close> and \<open>models.py\<close> that complete a habit for today, undo
  today's completion, and edit or archive a habit, over the tables of \<open>database.py\<close>.
\<close>

section \<open>Data model\<close>

text \<open>
  The tracker keeps its state in two SQLite tables, \<open>habits\<close> and \<open>habit_completions\<close>
  (database.py, \<open>init_db\<close>). A table is a list of rows in insertion order.

  Calendar dates are stored as text \<open>YYYY-MM-DD\<close>, produced by
  \<open>strftime('%Y-%m-%d')\<close> and read back by \<open>strptime\<close>. A date is identified here with
  its day number, an integer: subtracting two dates and taking \<open>.days\<close> is integer
  subtraction, \<open>d - timedelta(days=1)\<close> is \<open>d - 1\<close>, and \<open>ORDER BY date DESC\<close> on the
  zero-padded text is the descending order of the day numbers. The bounded range of
  Python's \<open>date\<close> (years 1 to 9999) and malformed date text are outside the model.
\<close>

type_synonym date = int

text \<open>A row of \<open>habits\<close>. The column \<open>id\<close> is called \<open>id_h\<close>.\<close>

record habit_row =
  id_h :: int
  name :: string
  streak :: int
  last_done :: "date option"
  created_at :: string
  reminder_time :: "string option"
  is_archived :: bool

text \<open>
  A row of \<open>habit_completions\<close>. Its own autoincrement \<open>id\<close> is never read by the
  operations below (only the existence of a row is) and is left out.
\<close>

record completion_row =
  habit_id :: int
  date_c :: date
  created_at_c :: string

text \<open>
  \<open>habits_seq\<close> is the \<open>sqlite_sequence\<close> entry of the \<open>AUTOINCREMENT\<close> key of
  \<open>habits\<close>: the largest id ever handed out.
\<close>

record store =
  habits :: "habit_row list"
  habit_completions :: "completion_row list"
  habits_seq :: int

text \<open>
  What \<open>datetime.now()\<close> gives during one call: the date \<open>strftime('%Y-%m-%d')\<close> and
  the timestamp \<open>isoformat()\<close>.
\<close>

record clock =
  today :: date
  isoformat :: string

text \<open>The values of the dictionaries the service functions return.\<close>

datatype json = JNull | JBool bool | JInt int | JStr string | JDate date

type_synonym pydict = "(string \<times> json) list"

text \<open>
  A service function returns the pair \<open>(result, error)\<close>: one of the two is \<open>None\<close>.
\<close>

type_synonym service_result = "pydict option \<times> string option"

text \<open>
  What a call does: it returns a value, or it raises an exception, named here by its
  class.
\<close>

datatype 'a outcome = Returns 'a | Raises string

text \<open>
  Python's \<open>sqlite3\<close> binds an \<open>int\<close> parameter as a signed 64-bit \<open>INTEGER\<close>. For
  an \<open>int\<close> outside that range the \<open>execute\<close> raises \<open>OverflowError\<close>, with the
  message \<open>Python int too large to convert to SQLite INTEGER\<close>, and the statement
  does not run.
\<close>

definition sqlite_int :: "int \<Rightarrow> bool" where
  "sqlite_int n \<longleftrightarrow> - 9223372036854775808 \<le> n \<and> n \<le> 9223372036854775807"

section \<open>Queries\<close>

text \<open>The row of \<open>habits\<close> with a given id, if there is one.\<close>

definition find_habit :: "store \<Rightarrow> int \<Rightarrow> habit_row option" where
  "find_habit st hid = find (\<lambda>h. id_h h = hid) (habits st)"

text \<open>
  \<open>SELECT * FROM habits WHERE id = ?\<close>, \<open>fetchone()\<close>. It is the first statement of
  every operation on a habit and binds the habit id the caller passed, which may be any
  Python \<open>int\<close>.
\<close>

definition select_habit :: "store \<Rightarrow> int \<Rightarrow> habit_row option outcome" where
  "select_habit st hid =
     (if sqlite_int hid then Returns (find_habit st hid) else Raises ''OverflowError'')"

text \<open>
  \<open>SELECT id FROM habit_completions WHERE habit_id = ? AND date = ?\<close>, \<open>fetchone()\<close>.
  This statement and the three writes below bind a habit id only after \<open>select_habit\<close>
  has bound the same id; the dates and timestamps they bind are text.
\<close>

definition select_completion :: "store \<Rightarrow> int \<Rightarrow> date \<Rightarrow> completion_row option" where
  "select_completion st hid d =
     find (\<lambda>c. habit_id c = hid \<and> date_c c = d) (habit_completions st)"

text \<open>
  \<open>UPDATE habits SET streak = ?, last_done = ? WHERE id = ?\<close>, for a streak that can
  be bound; the callers check \<open>sqlite_int\<close> of the streak first where it may fail.
\<close>

definition update_streak :: "store \<Rightarrow> int \<Rightarrow> int \<Rightarrow> date option \<Rightarrow> store" where
  "update_streak st hid s ld =
     st\<lparr>habits := map (\<lambda>h. if id_h h = hid then h\<lparr>streak := s, last_done := ld\<rparr> else h)
                        (habits st)\<rparr>"

text \<open>\<open>INSERT INTO habit_completions (habit_id, date, created_at) VALUES (?, ?, ?)\<close>.\<close>

definition insert_completion :: "store \<Rightarrow> int \<Rightarrow> date \<Rightarrow> string \<Rightarrow> store" where
  "insert_completion st hid d ts =
     st\<lparr>habit_completions := habit_completions st @
           [\<lparr>habit_id = hid, date_c = d, created_at_c = ts\<rparr>]\<rparr>"

text \<open>\<open>DELETE FROM habit_completions WHERE habit_id = ? AND date = ?\<close>.\<close>

definition delete_completion :: "store \<Rightarrow> int \<Rightarrow> date \<Rightarrow> store" where
  "delete_completion st hid d =
     st\<lparr>habit_completions :=
           filter (\<lambda>c. \<not> (habit_id c = hid \<and> date_c c = d)) (habit_completions st)\<rparr>"

text \<open>\<open>SELECT date FROM habit_completions WHERE habit_id = ? ORDER BY date DESC\<close>.\<close>

definition select_dates_desc :: "store \<Rightarrow> int \<Rightarrow> date list" where
  "select_dates_desc st hid =
     rev (sort (map date_c (filter (\<lambda>c. habit_id c = hid) (habit_completions st))))"

section \<open>HabitService (services.py)\<close>

text \<open>
  \<open>HabitService.complete_habit_for_today\<close>. The first component of the result is what
  the call returns or raises, the second the store after the call. The function has no
  \<open>try\<close>: an exception leaves it before \<open>conn.commit()\<close>, and what the call has
  written so far is never committed. The \<open>UPDATE\<close> binds \<open>new_streak\<close> after the
  \<open>INSERT\<close> has run; when that bind raises, the inserted row is lost with it and the
  store is as before the call.
\<close>

definition complete_habit_for_today ::
  "clock \<Rightarrow> store \<Rightarrow> int \<Rightarrow> service_result outcome \<times> store" where
  "complete_habit_for_today now st hid =
     (case select_habit st hid of
        Raises e \<Rightarrow> (Raises e, st)
      | Returns None \<Rightarrow> (Returns (None, Some ''Habit not found''), st)
      | Returns (Some habit) \<Rightarrow>
          (case select_completion st hid (today now) of
             Some existing \<Rightarrow> (Returns (None, Some ''Habit already completed today''), st)
           | None \<Rightarrow>
               let new_streak =
                     (case last_done habit of
                        None \<Rightarrow> 1
                      | Some ld \<Rightarrow>
                          let days_diff = today now - ld
                          in if days_diff = 1 then streak habit + 1 else 1)
               in if \<not> sqlite_int new_streak then (Raises ''OverflowError'', st)
                  else
                    let st1 = insert_completion st hid (today now) (isoformat now);
                        st2 = update_streak st1 hid new_streak (Some (today now))
                    in (Returns (Some [(''success'', JBool True),
                                       (''new_streak'', JInt new_streak)], None),
                        st2)))"

text \<open>
  The loop of \<open>uncomplete_habit_for_today\<close> over \<open>dates[1:]\<close>: \<open>expected\<close> is the day
  the next row must hold for the streak to go on, \<open>new_streak\<close> the count so far; the
  \<open>break\<close> returns the count.
\<close>

fun streak_loop :: "date list \<Rightarrow> date \<Rightarrow> int \<Rightarrow> int" where
  "streak_loop [] expected new_streak = new_streak"
| "streak_loop (d # rest) expected new_streak =
     (if d = expected then streak_loop rest (expected - 1) (new_streak + 1)
      else new_streak)"

text \<open>
  \<open>HabitService.uncomplete_habit_for_today\<close>. The first \<open>SELECT\<close> stands before the
  \<open>try\<close>, so its \<open>OverflowError\<close> leaves the function. Inside the \<open>try\<close> the only
  \<open>int\<close> bound besides the habit id is \<open>new_streak\<close>, which is at most the number of
  completion rows of the habit; a table of SQLite has fewer than \<open>2^63\<close> rows, so that
  bind is taken to succeed, and the \<open>except\<close> branch (rollback,
  \<open>"Failed to uncomplete habit"\<close>) has no counterpart here.
\<close>

definition uncomplete_habit_for_today ::
  "clock \<Rightarrow> store \<Rightarrow> int \<Rightarrow> service_result outcome \<times> store" where
  "uncomplete_habit_for_today now st hid =
     (case select_habit st hid of
        Raises e \<Rightarrow> (Raises e, st)
      | Returns None \<Rightarrow> (Returns (None, Some ''Habit not found''), st)
      | Returns (Some habit) \<Rightarrow>
          (case select_completion st hid (today now) of
             None \<Rightarrow> (Returns (None, Some ''Habit not completed today''), st)
           | Some existing \<Rightarrow>
               let st1 = delete_completion st hid (today now);
                   dates = select_dates_desc st1 hid;
                   (new_streak, ld) =
                     (case dates of
                        [] \<Rightarrow> (0, None)
                      | last_done_date # rest \<Rightarrow>
                          (streak_loop rest (last_done_date - 1) 1, Some last_done_date));
                   st2 = update_streak st1 hid new_streak ld
               in (Returns (Some [(''success'', JBool True),
                                  (''new_streak'', JInt new_streak)], None),
                   st2)))"

text \<open>
  SQLite's \<open>LOWER\<close> folds the ASCII letters only.
\<close>

definition sql_lower_char :: "char \<Rightarrow> char" where
  "sql_lower_char c =
     (let n = (of_char c :: nat) in if 65 \<le> n \<and> n \<le> 90 then char_of (n + 32) else c)"

definition sql_lower :: "string \<Rightarrow> string" where
  "sql_lower s = map sql_lower_char s"

text \<open>
  Python's \<open>str.strip()\<close> removes leading and trailing whitespace; on ASCII text the
  whitespace characters are the codes 9 to 13, 28 to 31 and 32.
\<close>

definition py_isspace :: "char \<Rightarrow> bool" where
  "py_isspace c =
     (let n = (of_char c :: nat) in (9 \<le> n \<and> n \<le> 13) \<or> (28 \<le> n \<and> n \<le> 32))"

definition py_strip :: "string \<Rightarrow> string" where
  "py_strip s = rev (dropWhile py_isspace (rev (dropWhile py_isspace s)))"

text \<open>A string or \<open>None\<close> as a dictionary value.\<close>

definition json_of_str :: "string option \<Rightarrow> json" where
  "json_of_str x = (case x of None \<Rightarrow> JNull | Some s \<Rightarrow> JStr s)"

definition json_of_date :: "date option \<Rightarrow> json" where
  "json_of_date x = (case x of None \<Rightarrow> JNull | Some d \<Rightarrow> JDate d)"

text \<open>
  The key an \<open>INSERT INTO habits\<close> receives from \<open>AUTOINCREMENT\<close>: one more than the
  largest id in the table and the largest id ever handed out.
\<close>

definition next_habit_id :: "store \<Rightarrow> int" where
  "next_habit_id st = fold max (map id_h (habits st)) (habits_seq st) + 1"

text \<open>
  \<open>INSERT INTO habits (name, streak, last_done, created_at, reminder_time)\<close>; the column
  \<open>is_archived\<close> takes its default 0.
\<close>

definition insert_habit ::
  "store \<Rightarrow> string \<Rightarrow> int \<Rightarrow> date option \<Rightarrow> string \<Rightarrow> string option \<Rightarrow> store" where
  "insert_habit st n s ld ts rt =
     (let i = next_habit_id st
      in st\<lparr>habits := habits st @
               [\<lparr>id_h = i, name = n, streak = s, last_done = ld, created_at = ts,
                 reminder_time = rt, is_archived = False\<rparr>],
             habits_seq := i\<rparr>)"

text \<open>
  \<open>HabitService.add_new_habit\<close>. \<open>if reminder_time:\<close> is false for \<open>None\<close> and for the
  empty string; the returned dictionary repeats the argument as it was given.
\<close>

definition add_new_habit ::
  "clock \<Rightarrow> store \<Rightarrow> string \<Rightarrow> string option \<Rightarrow> service_result \<times> store" where
  "add_new_habit now st habit_name rt =
     (case find (\<lambda>h. sql_lower (name h) = sql_lower habit_name) (habits st) of
        Some existing \<Rightarrow> ((None, Some ''Habit already exists''), st)
      | None \<Rightarrow>
          let st1 = (if rt \<noteq> None \<and> rt \<noteq> Some []
                     then insert_habit st habit_name 0 None (isoformat now) rt
                     else insert_habit st habit_name 0 None (isoformat now) None);
              new_id = habits_seq st1
          in ((Some [(''id'', JInt new_id), (''name'', JStr habit_name), (''streak'', JInt 0),
                     (''last_done'', JNull), (''done_today'', JBool False),
                     (''reminder_time'', json_of_str rt)], None),
              st1))"

text \<open>
  \<open>HabitService.update_habit\<close>. The two optional arguments are \<open>None\<close> when not given.
  The whole body is inside a \<open>try\<close>: when the first \<open>SELECT\<close> raises, the \<open>except\<close>
  branch rolls back and returns \<open>"Failed to update habit"\<close>. Every early return
  happens before the \<open>UPDATE\<close>. The last \<open>SELECT\<close> finds the row just updated; were it
  absent, subscripting \<open>None\<close> would raise, after the commit, and the \<open>except\<close> branch
  would return the same message.
\<close>

definition update_habit ::
  "store \<Rightarrow> int \<Rightarrow> string option \<Rightarrow> string option \<Rightarrow> service_result \<times> store" where
  "update_habit st hid name_arg rt_arg =
     (case select_habit st hid of
        Raises e \<Rightarrow> ((None, Some ''Failed to update habit''), st)
      | Returns None \<Rightarrow> ((None, Some ''Habit not found''), st)
      | Returns (Some habit) \<Rightarrow>
          let new_name = map_option py_strip name_arg
          in if new_name = Some [] then ((None, Some ''Habit name cannot be empty''), st)
             else if (case new_name of
                        None \<Rightarrow> False
                      | Some n \<Rightarrow>
                          find (\<lambda>h. sql_lower (name h) = sql_lower n \<and> id_h h \<noteq> hid)
                               (habits st) \<noteq> None)
             then ((None, Some ''Habit with this name already exists''), st)
             else if new_name = None \<and> rt_arg = None
             then ((None, Some ''No fields to update''), st)
             else
               let set_name = (\<lambda>h. case new_name of None \<Rightarrow> h | Some n \<Rightarrow> h\<lparr>name := n\<rparr>);
                   set_rt = (\<lambda>h. case rt_arg of
                                     None \<Rightarrow> h
                                   | Some r \<Rightarrow>
                                       h\<lparr>reminder_time := (if r \<noteq> [] then Some r else None)\<rparr>);
                   st1 = st\<lparr>habits := map (\<lambda>h. if id_h h = hid then set_rt (set_name h) else h)
                                            (habits st)\<rparr>
               in (case find_habit st1 hid of
                     None \<Rightarrow> ((None, Some ''Failed to update habit''), st1)
                   | Some updated \<Rightarrow>
                       ((Some [(''id'', JInt (id_h updated)), (''name'', JStr (name updated)),
                               (''streak'', JInt (streak updated)),
                               (''last_done'', json_of_date (last_done updated)),
                               (''created_at'', JStr (created_at updated)),
                               (''reminder_time'', json_of_str (reminder_time updated))],
                         None),
                        st1)))"

text \<open>
  \<open>UPDATE habits SET is_archived = ? WHERE id = ?\<close> for an id that can be bound, with
  \<open>cursor.rowcount\<close>, the number of rows matched.
\<close>

definition set_archived :: "store \<Rightarrow> int \<Rightarrow> bool \<Rightarrow> store \<times> nat" where
  "set_archived st hid b =
     (st\<lparr>habits := map (\<lambda>h. if id_h h = hid then h\<lparr>is_archived := b\<rparr> else h) (habits st)\<rparr>,
      length (filter (\<lambda>h. id_h h = hid) (habits st)))"

text \<open>
  \<open>HabitService.archive_habit\<close>. The \<open>UPDATE\<close> is inside the \<open>try\<close>: when binding the
  id raises, the \<open>except\<close> branch rolls back and returns \<open>"Failed to archive habit"\<close>.
  With no row matched, the rollback gives the store back as it was.
\<close>

definition archive_habit :: "store \<Rightarrow> int \<Rightarrow> service_result \<times> store" where
  "archive_habit st hid =
     (if \<not> sqlite_int hid then ((None, Some ''Failed to archive habit''), st)
      else
        let (st1, rowcount) = set_archived st hid True
        in if rowcount = 0 then ((None, Some ''Habit not found''), st)
           else ((Some [(''success'', JBool True)], None), st1))"

text \<open>\<open>HabitService.unarchive_habit\<close>, built like \<open>archive_habit\<close>.\<close>

definition unarchive_habit :: "store \<Rightarrow> int \<Rightarrow> service_result \<times> store" where
  "unarchive_habit st hid =
     (if \<not> sqlite_int hid then ((None, Some ''Failed to unarchive habit''), st)
      else
        let (st1, rowcount) = set_archived st hid False
        in if rowcount = 0 then ((None, Some ''Habit not found''), st)
           else ((Some [(''success'', JBool True)], None), st1))"

section \<open>The habits loop of TaskService.migrate_data_from_json (services.py)\<close>

text \<open>
  An entry of the list \<open>data['habits']\<close> of \<open>data.json\<close>. Each of the three keys is
  absent or holds a value of the kind its column holds: a string, an integer, a date.
  Other JSON values, \<open>null\<close> among them, are outside the model.
\<close>

record habit_data =
  hd_name :: "string option"
  hd_streak :: "int option"
  hd_last_done :: "date option"

text \<open>
  One iteration. \<open>habit_data['name']\<close> raises \<open>KeyError\<close> when the key is absent, and
  binding a streak that is no signed 64-bit integer raises \<open>OverflowError\<close>; the bare
  \<open>except: pass\<close> skips such an entry without counting it. \<open>INSERT OR IGNORE\<close> adds no
  row when the name is already in the table (\<open>name TEXT NOT NULL UNIQUE\<close>); the ignored
  insert still uses up the next \<open>AUTOINCREMENT\<close> key, and the entry is counted all the
  same. No row of \<open>habit_completions\<close> is written.
\<close>

definition migrate_habit :: "clock \<Rightarrow> habit_data \<Rightarrow> store \<times> nat \<Rightarrow> store \<times> nat" where
  "migrate_habit now e acc =
     (let (st, migrated_habits) = acc
      in case hd_name e of
           None \<Rightarrow> (st, migrated_habits)
         | Some n \<Rightarrow>
             let s = (case hd_streak e of None \<Rightarrow> 0 | Some s \<Rightarrow> s)
             in if \<not> sqlite_int s then (st, migrated_habits)
                else
                  ((if find (\<lambda>h. name h = n) (habits st) \<noteq> None
                    then st\<lparr>habits_seq := next_habit_id st\<rparr>
                    else insert_habit st n s (hd_last_done e) (isoformat now) None),
                   migrated_habits + 1))"

definition migrate_habits :: "clock \<Rightarrow> store \<Rightarrow> habit_data list \<Rightarrow> store \<times> nat" where
  "migrate_habits now st entries = fold (migrate_habit now) entries (st, 0)"

section \<open>HabitManager (models.py)\<close>

text \<open>
  \<open>HabitManager._calculate_new_streak\<close>. \<open>if not habit.last_done\<close> holds for \<open>None\<close>
  (and for empty text, which is not a date).
\<close>

definition calculate_new_streak :: "habit_row \<Rightarrow> date \<Rightarrow> int" where
  "calculate_new_streak habit completion_date =
     (case last_done habit of
        None \<Rightarrow> 1
      | Some ld \<Rightarrow>
          let days_diff = completion_date - ld
          in if days_diff = 1 then streak habit + 1 else 1)"

text \<open>
  \<open>HabitManager.complete_habit\<close>, which returns the triple
  \<open>(success, message, data)\<close>. It makes the same checks and the same two writes as
  \<open>complete_habit_for_today\<close>, with the streak computed by \<open>_calculate_new_streak\<close>,
  all inside a \<open>try\<close>: when binding the habit id or the new streak raises, the
  \<open>except\<close> branch rolls back and returns \<open>(False, str(e), None)\<close>, where \<open>str(e)\<close>
  is the message of the \<open>OverflowError\<close>.
\<close>

definition complete_habit ::
  "clock \<Rightarrow> store \<Rightarrow> int \<Rightarrow> (bool \<times> string \<times> pydict option) \<times> store" where
  "complete_habit now st hid =
     (case select_habit st hid of
        Raises e \<Rightarrow>
          ((False, ''Python int too large to convert to SQLite INTEGER'', None), st)
      | Returns None \<Rightarrow> ((False, ''Habit not found'', None), st)
      | Returns (Some habit) \<Rightarrow>
          (case select_completion st hid (today now) of
             Some existing \<Rightarrow> ((False, ''Habit already completed today'', None), st)
           | None \<Rightarrow>
               let new_streak = calculate_new_streak habit (today now)
               in if \<not> sqlite_int new_streak
                  then ((False, ''Python int too large to convert to SQLite INTEGER'', None), st)
                  else
                    let st1 = insert_completion st hid (today now) (isoformat now);
                        st2 = update_streak st1 hid new_streak (Some (today now))
                    in ((True, ''Habit completed!'',
                         Some [(''new_streak'', JInt new_streak),
                               (''completion_date'', JDate (today now))]),
                        st2)))"

section \<open>Calling a service function\<close>

text \<open>
  \<open>complete_habit_for_today(habit_id)\<close> and \<open>uncomplete_habit_for_today(habit_id)\<close> are
  declared with the one parameter \<open>habit_id\<close>. A Python call that passes one more
  positional argument, here a date, raises \<open>TypeError\<close> before the body runs, so the
  store is not touched; a call with the habit id alone runs the body.
\<close>

definition call_service ::
  "(clock \<Rightarrow> store \<Rightarrow> int \<Rightarrow> service_result outcome \<times> store)
   \<Rightarrow> clock \<Rightarrow> store \<Rightarrow> int \<Rightarrow> date option \<Rightarrow> service_result outcome \<times> store" where
  "call_service f now st hid date_arg =
     (case date_arg of
        None \<Rightarrow> f now st hid
      | Some d \<Rightarrow> (Raises ''TypeError'', st))"

section \<open>The streak as the specification words it\<close>

text \<open>
  The dates on which a habit has a completion row.
\<close>

definition completion_dates :: "store \<Rightarrow> int \<Rightarrow> date set" where
  "completion_dates st hid =
     set (map date_c (filter (\<lambda>c. habit_id c = hid) (habit_completions st)))"

text \<open>
  The constraint \<open>UNIQUE(habit_id, date)\<close> of \<open>habit_completions\<close> (database.py).
\<close>

definition unique_completions :: "store \<Rightarrow> bool" where
  "unique_completions st =
     distinct (map (\<lambda>c. (habit_id c, date_c c)) (habit_completions st))"

text \<open>
  The specification's streak: walk backward day by day from a date, counting the days
  that are in the set, and stop at the first missing day or when the set is exhausted
  (\<open>fuel\<close> is the number of dates in the set).
\<close>

fun consecutive_days_ending :: "nat \<Rightarrow> date set \<Rightarrow> date \<Rightarrow> int" where
  "consecutive_days_ending 0 S d = 0"
| "consecutive_days_ending (Suc fuel) S d =
     (if d \<in> S then 1 + consecutive_days_ending fuel S (d - 1) else 0)"

text \<open>
  The cached fields as the specification derives them from the set of completion dates:
  streak 0 and no last-completed date for the empty set; otherwise the latest date, and
  the count of consecutive days ending at it.
\<close>

definition spec_streak :: "date set \<Rightarrow> int" where
  "spec_streak S = (if S = {} then 0 else consecutive_days_ending (card S) S (Max S))"

definition spec_last_completed :: "date set \<Rightarrow> date option" where
  "spec_last_completed S = (if S = {} then None else Some (Max S))"

text \<open>
  The cached fields of a habit agree with its completion rows.
\<close>

definition cache_consistent :: "store \<Rightarrow> int \<Rightarrow> bool" where
  "cache_consistent st hid =
     (case find_habit st hid of
        None \<Rightarrow> False
      | Some h \<Rightarrow> streak h = spec_streak (completion_dates st hid)
                \<and> last_done h = spec_last_completed (completion_dates st hid))"

text \<open>
  The invariant of a habit at a date \<open>t\<close>: the table is unique, the cache agrees with
  the rows, and no completion is dated after \<open>t\<close>.
\<close>

definition streak_invariant :: "store \<Rightarrow> int \<Rightarrow> date \<Rightarrow> bool" where
  "streak_invariant st hid t \<longleftrightarrow>
     unique_completions st \<and> cache_consistent st hid
     \<and> (\<forall>d \<in> completion_dates st hid. d \<le> t)"

section \<open>Sequences of operations\<close>

text \<open>
  A call of one of the two operations, with the clock reading of the call and the habit
  id; \<open>run\<close> applies a sequence of calls to a store, discarding what they return or
  raise.
\<close>

datatype op = Complete clock int | Uncomplete clock int

fun op_date :: "op \<Rightarrow> date" where
  "op_date (Complete now hid) = today now"
| "op_date (Uncomplete now hid) = today now"

fun apply_op :: "store \<Rightarrow> op \<Rightarrow> store" where
  "apply_op st (Complete now hid) = snd (complete_habit_for_today now st hid)"
| "apply_op st (Uncomplete now hid) = snd (uncomplete_habit_for_today now st hid)"

definition run :: "store \<Rightarrow> op list \<Rightarrow> store" where
  "run st ops = foldl apply_op st ops"

section \<open>Example stores\<close>

text \<open>A clock reading on day \<open>d\<close>.\<close>

definition at_day :: "date \<Rightarrow> clock" where
  "at_day d = \<lparr>today = d, isoformat = ''T''\<rparr>"

text \<open>The two tables after \<open>init_db\<close>.\<close>

definition empty_store :: store where
  "empty_store = \<lparr>habits = [], habit_completions = [], habits_seq = 0\<rparr>"

text \<open>One habit just created by \<open>add_new_habit\<close>.\<close>

definition fresh_store :: store where
  "fresh_store = snd (add_new_habit (at_day 1) empty_store ''Run'' None)"

text \<open>That habit completed on days 1, 2 and 4.\<close>

definition store_1_2_4 :: store where
  "store_1_2_4 =
     run fresh_store [Complete (at_day 1) 1, Complete (at_day 2) 1, Complete (at_day 4) 1]"

text \<open>
  A habit brought in by the migration with streak 5 and last completion on day 9; the
  migration writes no completion rows.
\<close>

definition migrated_store :: store where
  "migrated_store =
     fst (migrate_habits (at_day 9) empty_store
            [\<lparr>hd_name = Some ''Read'', hd_streak = Some 5, hd_last_done = Some 9\<rparr>])"

text \<open>
  A habit brought in by the migration with the largest streak the column can hold and
  last completion on day 4.
\<close>

definition full_streak_store :: store where
  "full_streak_store =
     fst (migrate_habits (at_day 4) empty_store
            [\<lparr>hd_name = Some ''Walk'', hd_streak = Some 9223372036854775807,
              hd_last_done = Some 4\<rparr>])"

section \<open>Tables after a write\<close>

lemma find_id_map:
  assumes "\<And>h. id_h (f h) = id_h h"
  shows "find (\<lambda>h. id_h h = k) (map (\<lambda>h. if id_h h = hid then f h else h) xs)
       = (if k = hid then map_option f (find (\<lambda>h. id_h h = k) xs)
          else find (\<lambda>h. id_h h = k) xs)"
  using assms by (induction xs) auto

lemma find_habit_update_streak:
  "find_habit (update_streak st hid s ld) k
   = (if k = hid then map_option (\<lambda>h. h\<lparr>streak := s, last_done := ld\<rparr>) (find_habit st k)
      else find_habit st k)"
  unfolding find_habit_def update_streak_def
  using find_id_map [of "\<lambda>h. h\<lparr>streak := s, last_done := ld\<rparr>" k hid "habits st"] by simp

lemma find_habit_insert_completion:
  "find_habit (insert_completion st hid d ts) k = find_habit st k"
  by (simp add: find_habit_def insert_completion_def)

lemma find_habit_delete_completion:
  "find_habit (delete_completion st hid d) k = find_habit st k"
  by (simp add: find_habit_def delete_completion_def)

lemma habit_completions_update_streak:
  "habit_completions (update_streak st hid s ld) = habit_completions st"
  by (simp add: update_streak_def)

lemma select_completion_update_streak:
  "select_completion (update_streak st hid s ld) k d = select_completion st k d"
  by (simp add: select_completion_def update_streak_def)

lemma find_append_hit:
  "find P (xs @ [x]) = (case find P xs of Some y \<Rightarrow> Some y | None \<Rightarrow> if P x then Some x else None)"
  by (induction xs) auto

lemma select_completion_insert_same:
  "select_completion (insert_completion st hid d ts) hid d \<noteq> None"
  by (simp add: select_completion_def insert_completion_def find_append_hit split: option.splits)

lemma completion_dates_delete:
  "completion_dates (delete_completion st hid d) k
   = (if k = hid then completion_dates st hid - {d} else completion_dates st k)"
  by (auto simp add: completion_dates_def delete_completion_def)

lemma completion_dates_insert:
  "completion_dates (insert_completion st hid d ts) k
   = (if k = hid then insert d (completion_dates st hid) else completion_dates st k)"
  by (auto simp add: completion_dates_def insert_completion_def)

lemma completion_dates_update_streak:
  "completion_dates (update_streak st hid s ld) k = completion_dates st k"
  by (simp add: completion_dates_def update_streak_def)

lemma select_completion_None_iff:
  "select_completion st hid d = None \<longleftrightarrow> d \<notin> completion_dates st hid"
  by (auto simp add: select_completion_def completion_dates_def find_None_iff)

lemma unique_completions_delete:
  "unique_completions st \<Longrightarrow> unique_completions (delete_completion st hid d)"
  by (simp add: unique_completions_def delete_completion_def distinct_map_filter)

lemma unique_completions_insert:
  assumes "unique_completions st" and "select_completion st hid d = None"
  shows "unique_completions (insert_completion st hid d ts)"
  using assms
  by (auto simp add: unique_completions_def insert_completion_def select_completion_def
        find_None_iff)

lemma unique_completions_update_streak:
  "unique_completions (update_streak st hid s ld) = unique_completions st"
  by (simp add: unique_completions_def update_streak_def)

lemma distinct_dates_of_habit:
  assumes "distinct (map (\<lambda>c. (habit_id c, date_c c)) cs)"
  shows "distinct (map date_c (filter (\<lambda>c. habit_id c = hid) cs))"
  using assms by (induction cs) (auto simp add: image_iff)

lemma filter_completion_appended:
  assumes "select_completion st hid d = None"
  shows "filter (\<lambda>c. \<not> (habit_id c = hid \<and> date_c c = d))
           (habit_completions st @ [\<lparr>habit_id = hid, date_c = d, created_at_c = ts\<rparr>])
         = habit_completions st"
  using assms by (auto simp add: select_completion_def find_None_iff filter_id_conv)

section \<open>The run of consecutive days\<close>

text \<open>
  With enough fuel the backward walk returns the length \<open>k\<close> of the run of consecutive
  days ending at \<open>d\<close>: the days \<open>d, d - 1, \<dots>, d - k + 1\<close> are in the set and
  \<open>d - k\<close> is not. Such a \<open>k\<close> is unique.
\<close>

lemma consecutive_days_ending_run:
  assumes "finite S" and "card {x \<in> S. x \<le> d} \<le> fuel"
  shows "0 \<le> consecutive_days_ending fuel S d
       \<and> (\<forall>i. 0 \<le> i \<and> i < consecutive_days_ending fuel S d \<longrightarrow> d - i \<in> S)
       \<and> d - consecutive_days_ending fuel S d \<notin> S"
  using assms
proof (induction fuel arbitrary: d)
  case 0
  then have "{x \<in> S. x \<le> d} = {}" by simp
  then have "d \<notin> S" by auto
  then show ?case by auto
next
  case (Suc fuel)
  show ?case
  proof (cases "d \<in> S")
    case False
    then show ?thesis by auto
  next
    case True
    have split: "{x \<in> S. x \<le> d} = insert d {x \<in> S. x \<le> d - 1}"
      using True by auto
    have "d \<notin> {x \<in> S. x \<le> d - 1}" by simp
    moreover have "finite {x \<in> S. x \<le> d - 1}" using Suc.prems(1) by simp
    ultimately have "card {x \<in> S. x \<le> d} = Suc (card {x \<in> S. x \<le> d - 1})"
      unfolding split by (rule card_insert_disjoint [rotated])
    with Suc.prems(2) have "card {x \<in> S. x \<le> d - 1} \<le> fuel" by simp
    from Suc.IH [OF Suc.prems(1) this]
    have ih0: "0 \<le> consecutive_days_ending fuel S (d - 1)"
      and ih1: "\<And>i. 0 \<le> i \<Longrightarrow> i < consecutive_days_ending fuel S (d - 1) \<Longrightarrow> d - 1 - i \<in> S"
      and ih2: "d - 1 - consecutive_days_ending fuel S (d - 1) \<notin> S"
      by blast+
    let ?k = "consecutive_days_ending fuel S (d - 1)"
    have k: "consecutive_days_ending (Suc fuel) S d = 1 + ?k" using True by simp
    have a: "0 \<le> 1 + ?k" using ih0 by simp
    have b: "d - i \<in> S" if "0 \<le> i" and "i < 1 + ?k" for i
    proof (cases "i = 0")
      case True
      then show ?thesis using \<open>d \<in> S\<close> by simp
    next
      case False
      with that have "0 \<le> i - 1" and "i - 1 < ?k" by simp_all
      from ih1 [OF this] show ?thesis by (simp add: algebra_simps)
    qed
    have c: "d - (1 + ?k) \<notin> S" using ih2 by (simp add: algebra_simps)
    from a b c show ?thesis unfolding k by blast
  qed
qed

lemma run_unique:
  fixes m k k' :: int
  assumes "0 \<le> k" and "\<forall>i. 0 \<le> i \<and> i < k \<longrightarrow> m - i \<in> S" and "m - k \<notin> S"
    and "0 \<le> k'" and "\<forall>i. 0 \<le> i \<and> i < k' \<longrightarrow> m - i \<in> S" and "m - k' \<notin> S"
  shows "k = k'"
proof (rule ccontr)
  assume "k \<noteq> k'"
  then consider "k < k'" | "k' < k" by linarith
  then show False
  proof cases
    case 1
    with assms(1) assms(5) have "m - k \<in> S" by blast
    with assms(3) show False by contradiction
  next
    case 2
    with assms(4) assms(2) have "m - k' \<in> S" by blast
    with assms(6) show False by contradiction
  qed
qed

lemma spec_streak_run:
  assumes "finite S" and "S \<noteq> {}"
  shows "0 \<le> spec_streak S
       \<and> (\<forall>i. 0 \<le> i \<and> i < spec_streak S \<longrightarrow> Max S - i \<in> S)
       \<and> Max S - spec_streak S \<notin> S"
proof -
  have "card {x \<in> S. x \<le> Max S} \<le> card S"
    using assms(1) by (intro card_mono) auto
  from consecutive_days_ending_run [OF assms(1) this] assms(2)
  show ?thesis by (simp add: spec_streak_def)
qed

lemma spec_streak_eqI:
  assumes "finite S" and "S \<noteq> {}"
    and "0 \<le> k" and "\<forall>i. 0 \<le> i \<and> i < k \<longrightarrow> Max S - i \<in> S" and "Max S - k \<notin> S"
  shows "spec_streak S = k"
  using spec_streak_run [OF assms(1,2)] assms(3,4,5)
  by (intro run_unique [of "spec_streak S" "Max S" S k]) blast+

lemma spec_streak_positive:
  assumes "finite S" and "S \<noteq> {}"
  shows "1 \<le> spec_streak S"
proof -
  have "Max S \<in> S" using assms by simp
  with spec_streak_run [OF assms] have "spec_streak S \<noteq> 0" by auto
  with spec_streak_run [OF assms] show ?thesis by linarith
qed

section \<open>The loop computes the run\<close>

lemma streak_loop_run:
  assumes "sorted_wrt (>) rest" and "\<forall>x \<in> set rest. x \<le> expected"
  shows "acc \<le> streak_loop rest expected acc
       \<and> (\<forall>i. 0 \<le> i \<and> i < streak_loop rest expected acc - acc \<longrightarrow> expected - i \<in> set rest)
       \<and> expected - (streak_loop rest expected acc - acc) \<notin> set rest"
  using assms
proof (induction rest arbitrary: expected acc)
  case Nil
  show ?case by simp
next
  case (Cons d rest)
  show ?case
  proof (cases "d = expected")
    case False
    have "expected \<notin> set (d # rest)"
    proof
      assume "expected \<in> set (d # rest)"
      with False have "expected \<in> set rest" by simp
      with Cons.prems(1) have "expected < d" by auto
      moreover from Cons.prems(2) have "d \<le> expected" by simp
      ultimately show False by simp
    qed
    with False show ?thesis by simp
  next
    case True
    from Cons.prems(1) have s: "sorted_wrt (>) rest" by simp
    from Cons.prems(1) True have b: "\<forall>x \<in> set rest. x \<le> expected - 1" by auto
    let ?r = "streak_loop rest (expected - 1) (acc + 1)"
    from Cons.IH [OF s b, of "acc + 1"]
    have ih0: "acc + 1 \<le> ?r"
      and ih1: "\<And>i. 0 \<le> i \<Longrightarrow> i < ?r - (acc + 1) \<Longrightarrow> expected - 1 - i \<in> set rest"
      and ih2: "expected - 1 - (?r - (acc + 1)) \<notin> set rest"
      by blast+
    have r: "streak_loop (d # rest) expected acc = ?r" using True by simp
    have a: "acc \<le> ?r" using ih0 by simp
    have c: "expected - i \<in> set (d # rest)" if "0 \<le> i" and "i < ?r - acc" for i
    proof (cases "i = 0")
      case True
      then show ?thesis using \<open>d = expected\<close> by simp
    next
      case False
      with that have "0 \<le> i - 1" and "i - 1 < ?r - (acc + 1)" by simp_all
      from ih1 [OF this] show ?thesis by (simp add: algebra_simps)
    qed
    have e: "expected - (?r - acc) \<notin> set (d # rest)"
      using ih2 ih0 True by (simp add: algebra_simps)
    from a c e show ?thesis unfolding r by blast
  qed
qed

lemma recompute_streak:
  assumes "sorted_wrt (>) (d0 # rest)"
  shows "Max (set (d0 # rest)) = d0"
    and "streak_loop rest (d0 - 1) 1 = spec_streak (set (d0 # rest))"
proof -
  from assms have lt: "\<forall>x \<in> set rest. x < d0" by simp
  show m: "Max (set (d0 # rest)) = d0"
    using lt by (intro Max_eqI) auto
  from assms have s: "sorted_wrt (>) rest" by simp
  from lt have b: "\<forall>x \<in> set rest. x \<le> d0 - 1" by auto
  let ?r = "streak_loop rest (d0 - 1) 1"
  from streak_loop_run [OF s b, of 1]
  have l0: "1 \<le> ?r"
    and l1: "\<And>i. 0 \<le> i \<Longrightarrow> i < ?r - 1 \<Longrightarrow> d0 - 1 - i \<in> set rest"
    and l2: "d0 - 1 - (?r - 1) \<notin> set rest"
    by blast+
  have c: "d0 - i \<in> set (d0 # rest)" if "0 \<le> i" and "i < ?r" for i
  proof (cases "i = 0")
    case True
    then show ?thesis by simp
  next
    case False
    with that have "0 \<le> i - 1" and "i - 1 < ?r - 1" by simp_all
    from l1 [OF this] show ?thesis by (simp add: algebra_simps)
  qed
  have e: "d0 - ?r \<notin> set (d0 # rest)" using l2 l0 by (simp add: algebra_simps)
  have "spec_streak (set (d0 # rest)) = ?r"
  proof (rule spec_streak_eqI)
    show "\<forall>i. 0 \<le> i \<and> i < ?r \<longrightarrow> Max (set (d0 # rest)) - i \<in> set (d0 # rest)"
      unfolding m using c by blast
    show "Max (set (d0 # rest)) - ?r \<notin> set (d0 # rest)"
      unfolding m using e .
    show "0 \<le> ?r" using l0 by simp
  qed simp_all
  then show "?r = spec_streak (set (d0 # rest))" by simp
qed

lemma sorted_desc_of_distinct:
  fixes ds :: "date list"
  assumes "distinct ds"
  shows "sorted_wrt (>) (rev (sort ds))"
proof -
  have "sorted_wrt (<) (sort ds)"
    using assms by (simp add: strict_sorted_iff)
  then show ?thesis by (simp add: sorted_wrt_rev)
qed

lemma recompute_from_dates:
  fixes ds :: "date list"
  assumes "distinct ds"
  shows "(case rev (sort ds) of
            [] \<Rightarrow> (0, None)
          | last_done_date # rest \<Rightarrow>
              (streak_loop rest (last_done_date - 1) 1, Some last_done_date))
         = (spec_streak (set ds), spec_last_completed (set ds))"
proof (cases "rev (sort ds)")
  case Nil
  then have "set (rev (sort ds)) = {}" by simp
  then have "set ds = {}" by simp
  with Nil show ?thesis by (simp add: spec_streak_def spec_last_completed_def)
next
  case (Cons d0 rest)
  have "set (rev (sort ds)) = set (d0 # rest)" by (simp only: Cons)
  then have eq: "set ds = set (d0 # rest)" by simp
  from sorted_desc_of_distinct [OF assms] have "sorted_wrt (>) (d0 # rest)"
    by (simp only: Cons)
  from recompute_streak [OF this] show ?thesis
    unfolding eq Cons by (simp add: spec_last_completed_def)
qed

lemma select_dates_desc_recompute:
  assumes "unique_completions st"
  shows "(case select_dates_desc st hid of
            [] \<Rightarrow> (0, None)
          | last_done_date # rest \<Rightarrow>
              (streak_loop rest (last_done_date - 1) 1, Some last_done_date))
         = (spec_streak (completion_dates st hid), spec_last_completed (completion_dates st hid))"
  unfolding select_dates_desc_def completion_dates_def
  using assms
  by (intro recompute_from_dates distinct_dates_of_habit) (simp add: unique_completions_def)

lemma spec_streak_insert_later:
  assumes "finite S" and "\<forall>d \<in> S. d < t"
  shows "Max (insert t S) = t"
    and "spec_streak (insert t S) = (if S \<noteq> {} \<and> t - Max S = 1 then spec_streak S + 1 else 1)"
proof -
  show m: "Max (insert t S) = t"
    using assms by (intro Max_eqI) auto
  have fin: "finite (insert t S)" using assms(1) by simp
  show "spec_streak (insert t S) = (if S \<noteq> {} \<and> t - Max S = 1 then spec_streak S + 1 else 1)"
  proof (cases "S \<noteq> {} \<and> t - Max S = 1")
    case True
    then have ne: "S \<noteq> {}" and t: "t = Max S + 1" by simp_all
    from spec_streak_run [OF assms(1) ne]
    have k0: "0 \<le> spec_streak S"
      and k1: "\<And>i. 0 \<le> i \<Longrightarrow> i < spec_streak S \<Longrightarrow> Max S - i \<in> S"
      and k2: "Max S - spec_streak S \<notin> S"
      by blast+
    have a: "t - i \<in> insert t S" if "0 \<le> i" and "i < spec_streak S + 1" for i
    proof (cases "i = 0")
      case True
      then show ?thesis by simp
    next
      case False
      with that have "0 \<le> i - 1" and "i - 1 < spec_streak S" by simp_all
      from k1 [OF this] show ?thesis by (simp add: t algebra_simps)
    qed
    have b: "t - (spec_streak S + 1) \<notin> insert t S"
      using k2 k0 by (simp add: t algebra_simps)
    have "spec_streak (insert t S) = spec_streak S + 1"
    proof (rule spec_streak_eqI [OF fin])
      show "\<forall>i. 0 \<le> i \<and> i < spec_streak S + 1 \<longrightarrow> Max (insert t S) - i \<in> insert t S"
        unfolding m using a by blast
      show "Max (insert t S) - (spec_streak S + 1) \<notin> insert t S"
        unfolding m using b .
      show "0 \<le> spec_streak S + 1" using k0 by simp
    qed simp
    with True show ?thesis by simp
  next
    case False
    have c: "t - 1 \<notin> S"
    proof
      assume in_S: "t - 1 \<in> S"
      then have ne: "S \<noteq> {}" by auto
      from in_S assms(1) have "t - 1 \<le> Max S" by simp
      moreover from assms ne have "Max S < t" by simp
      ultimately have "t - Max S = 1" by simp
      with ne False show False by simp
    qed
    have "spec_streak (insert t S) = 1"
    proof (rule spec_streak_eqI [OF fin])
      show "\<forall>i. 0 \<le> i \<and> i < 1 \<longrightarrow> Max (insert t S) - i \<in> insert t S"
        unfolding m by auto
      show "Max (insert t S) - 1 \<notin> insert t S"
        unfolding m using c by simp
    qed simp_all
    with False show ?thesis by auto
  qed
qed

lemma complete_keeps_cache:
  assumes "find_habit st hid = Some h"
    and "streak h = spec_streak (completion_dates st hid)"
    and "last_done h = spec_last_completed (completion_dates st hid)"
    and "\<forall>d \<in> completion_dates st hid. d < t"
  shows "calculate_new_streak h t = spec_streak (insert t (completion_dates st hid))"
    and "Some t = spec_last_completed (insert t (completion_dates st hid))"
proof -
  have fin: "finite (completion_dates st hid)" by (simp add: completion_dates_def)
  note ins = spec_streak_insert_later [OF fin assms(4)]
  show "calculate_new_streak h t = spec_streak (insert t (completion_dates st hid))"
    unfolding ins(2)
    by (simp add: calculate_new_streak_def assms(2,3) spec_last_completed_def)
  show "Some t = spec_last_completed (insert t (completion_dates st hid))"
    by (simp add: spec_last_completed_def ins(1))
qed

section \<open>The two operations as store transformers\<close>

lemma select_habit_Returns:
  "select_habit st hid = Returns x \<longleftrightarrow> sqlite_int hid \<and> find_habit st hid = x"
  by (simp add: select_habit_def)

lemma select_habit_Raises:
  "select_habit st hid = Raises e \<longleftrightarrow> \<not> sqlite_int hid \<and> e = ''OverflowError''"
  by (auto simp add: select_habit_def)

lemma complete_result:
  assumes "sqlite_int hid" and "find_habit st hid = Some h"
    and "select_completion st hid (today now) = None"
    and "sqlite_int (calculate_new_streak h (today now))"
  shows "complete_habit_for_today now st hid
         = (Returns (Some [(''success'', JBool True),
                           (''new_streak'', JInt (calculate_new_streak h (today now)))], None),
            update_streak (insert_completion st hid (today now) (isoformat now)) hid
              (calculate_new_streak h (today now)) (Some (today now)))"
  using assms
  by (simp add: complete_habit_for_today_def select_habit_def calculate_new_streak_def Let_def)

lemma complete_manager_result:
  assumes "sqlite_int hid" and "find_habit st hid = Some h"
    and "select_completion st hid (today now) = None"
    and "sqlite_int (calculate_new_streak h (today now))"
  shows "complete_habit now st hid
         = ((True, ''Habit completed!'',
             Some [(''new_streak'', JInt (calculate_new_streak h (today now))),
                   (''completion_date'', JDate (today now))]),
            update_streak (insert_completion st hid (today now) (isoformat now)) hid
              (calculate_new_streak h (today now)) (Some (today now)))"
  using assms by (simp add: complete_habit_def select_habit_def Let_def)

lemma complete_overflow:
  assumes "sqlite_int hid" and "find_habit st hid = Some h"
    and "select_completion st hid (today now) = None"
    and "\<not> sqlite_int (calculate_new_streak h (today now))"
  shows "complete_habit_for_today now st hid = (Raises ''OverflowError'', st)"
    and "complete_habit now st hid
         = ((False, ''Python int too large to convert to SQLite INTEGER'', None), st)"
  using assms
  by (simp_all add: complete_habit_for_today_def complete_habit_def select_habit_def
        calculate_new_streak_def Let_def)

lemma complete_returns_iff:
  assumes "sqlite_int hid" and "find_habit st hid = Some h"
    and "select_completion st hid (today now) = None"
  shows "(\<exists>r. fst (complete_habit_for_today now st hid) = Returns r)
         \<longleftrightarrow> sqlite_int (calculate_new_streak h (today now))"
proof (cases "sqlite_int (calculate_new_streak h (today now))")
  case True
  from complete_result [OF assms True] True show ?thesis by simp
next
  case False
  from complete_overflow(1) [OF assms False] False show ?thesis by simp
qed

lemma uncomplete_result:
  assumes "sqlite_int hid" and "find_habit st hid = Some h"
    and "select_completion st hid (today now) \<noteq> None"
    and "unique_completions st"
  shows "uncomplete_habit_for_today now st hid
         = (Returns (Some [(''success'', JBool True),
                           (''new_streak'',
                            JInt (spec_streak (completion_dates st hid - {today now})))],
                     None),
            update_streak (delete_completion st hid (today now)) hid
              (spec_streak (completion_dates st hid - {today now}))
              (spec_last_completed (completion_dates st hid - {today now})))"
proof -
  from assms(3) obtain c where c: "select_completion st hid (today now) = Some c" by blast
  have u: "unique_completions (delete_completion st hid (today now))"
    using assms(4) by (rule unique_completions_delete)
  show ?thesis
    unfolding uncomplete_habit_for_today_def
    by (simp add: select_habit_def assms(1,2) c Let_def select_dates_desc_recompute [OF u]
          completion_dates_delete)
qed

lemma complete_store:
  "snd (complete_habit_for_today now st hid) = st
   \<or> (\<exists>h. sqlite_int hid \<and> find_habit st hid = Some h
          \<and> select_completion st hid (today now) = None
          \<and> sqlite_int (calculate_new_streak h (today now))
          \<and> snd (complete_habit_for_today now st hid)
              = update_streak (insert_completion st hid (today now) (isoformat now)) hid
                  (calculate_new_streak h (today now)) (Some (today now)))"
proof (cases "sqlite_int hid")
  case False
  then show ?thesis by (simp add: complete_habit_for_today_def select_habit_def)
next
  case int: True
  show ?thesis
  proof (cases "find_habit st hid")
    case None
    with int show ?thesis by (simp add: complete_habit_for_today_def select_habit_def)
  next
    case (Some h)
    show ?thesis
    proof (cases "select_completion st hid (today now)")
      case (Some c)
      with int \<open>find_habit st hid = Some h\<close> show ?thesis
        by (simp add: complete_habit_for_today_def select_habit_def)
    next
      case None
      show ?thesis
      proof (cases "sqlite_int (calculate_new_streak h (today now))")
        case False
        from complete_overflow(1) [OF int \<open>find_habit st hid = Some h\<close> None False]
        show ?thesis by simp
      next
        case True
        from complete_result [OF int \<open>find_habit st hid = Some h\<close> None True]
          int \<open>find_habit st hid = Some h\<close> None True
        show ?thesis by simp
      qed
    qed
  qed
qed

lemma uncomplete_store:
  assumes "unique_completions st"
  shows "snd (uncomplete_habit_for_today now st hid) = st
   \<or> (\<exists>h. sqlite_int hid \<and> find_habit st hid = Some h
          \<and> select_completion st hid (today now) \<noteq> None
          \<and> snd (uncomplete_habit_for_today now st hid)
              = update_streak (delete_completion st hid (today now)) hid
                  (spec_streak (completion_dates st hid - {today now}))
                  (spec_last_completed (completion_dates st hid - {today now})))"
proof (cases "sqlite_int hid")
  case False
  then show ?thesis by (simp add: uncomplete_habit_for_today_def select_habit_def)
next
  case int: True
  show ?thesis
  proof (cases "find_habit st hid")
    case None
    with int show ?thesis by (simp add: uncomplete_habit_for_today_def select_habit_def)
  next
    case (Some h)
    show ?thesis
    proof (cases "select_completion st hid (today now)")
      case None
      with int \<open>find_habit st hid = Some h\<close> show ?thesis
        by (simp add: uncomplete_habit_for_today_def select_habit_def)
    next
      case (Some c)
      then have ne: "select_completion st hid (today now) \<noteq> None" by simp
      from uncomplete_result [OF int \<open>find_habit st hid = Some h\<close> ne assms]
        int \<open>find_habit st hid = Some h\<close> ne
      show ?thesis by simp
    qed
  qed
qed

section \<open>The invariant along a sequence of operations\<close>

lemma streak_invariant_other_habit:
  assumes "streak_invariant st hid t"
    and "unique_completions st'"
    and "find_habit st' hid = find_habit st hid"
    and "completion_dates st' hid = completion_dates st hid"
  shows "streak_invariant st' hid t"
  using assms
  by (simp add: streak_invariant_def cache_consistent_def split: option.splits)

lemma apply_op_invariant:
  assumes "streak_invariant st hid t" and "t \<le> op_date op"
  shows "streak_invariant (apply_op st op) hid (op_date op)"
proof -
  from assms(1) have uq: "unique_completions st"
    and cc: "cache_consistent st hid"
    and bd: "\<forall>d \<in> completion_dates st hid. d \<le> t"
    by (simp_all add: streak_invariant_def)
  have same: "streak_invariant st hid (op_date op)"
    using uq cc bd assms(2) by (auto simp add: streak_invariant_def)
  show ?thesis
  proof (cases op)
    case (Complete now k)
    from complete_store [of now st k] show ?thesis
    proof
      assume "snd (complete_habit_for_today now st k) = st"
      with Complete same show ?thesis by simp
    next
      assume "\<exists>h. sqlite_int k \<and> find_habit st k = Some h
          \<and> select_completion st k (today now) = None
          \<and> sqlite_int (calculate_new_streak h (today now))
          \<and> snd (complete_habit_for_today now st k)
              = update_streak (insert_completion st k (today now) (isoformat now)) k
                  (calculate_new_streak h (today now)) (Some (today now))"
      then obtain hk where fk: "find_habit st k = Some hk"
        and None: "select_completion st k (today now) = None"
        and snd: "snd (complete_habit_for_today now st k)
              = update_streak (insert_completion st k (today now) (isoformat now)) k
                  (calculate_new_streak hk (today now)) (Some (today now))"
        by blast
      let ?n = "calculate_new_streak hk (today now)"
      let ?st' = "update_streak (insert_completion st k (today now) (isoformat now)) k
                    ?n (Some (today now))"
      have st': "apply_op st op = ?st'"
        using Complete snd by simp
      have u': "unique_completions ?st'"
        using uq None by (simp add: unique_completions_update_streak unique_completions_insert)
      show ?thesis
      proof (cases "k = hid")
        case False
        then have "find_habit ?st' hid = find_habit st hid"
          and "completion_dates ?st' hid = completion_dates st hid"
          by (simp_all add: find_habit_update_streak find_habit_insert_completion
                completion_dates_update_streak completion_dates_insert)
        with same u' show ?thesis
          unfolding st' by (rule streak_invariant_other_habit)
      next
        case True
        from cc fk True
        have c1: "streak hk = spec_streak (completion_dates st hid)"
          and c2: "last_done hk = spec_last_completed (completion_dates st hid)"
          by (simp_all add: cache_consistent_def)
        have notin: "today now \<notin> completion_dates st hid"
          using None True by (simp add: select_completion_None_iff)
        have lt: "\<forall>d \<in> completion_dates st hid. d < today now"
        proof
          fix d assume d: "d \<in> completion_dates st hid"
          with bd assms(2) Complete have "d \<le> today now" by auto
          moreover from d notin have "d \<noteq> today now" by auto
          ultimately show "d < today now" by simp
        qed
        have hk: "find_habit st hid = Some hk"
          using fk True by simp
        note keep = complete_keeps_cache [OF hk c1 c2 lt]
        have d': "completion_dates ?st' hid = insert (today now) (completion_dates st hid)"
          using True by (simp add: completion_dates_update_streak completion_dates_insert)
        have h': "find_habit ?st' hid = Some (hk\<lparr>streak := ?n, last_done := Some (today now)\<rparr>)"
          using hk True by (simp add: find_habit_update_streak find_habit_insert_completion)
        have "cache_consistent ?st' hid"
          unfolding cache_consistent_def h' d' using keep by simp
        moreover have "\<forall>d \<in> completion_dates ?st' hid. d \<le> op_date op"
          unfolding d' using lt Complete by auto
        ultimately show ?thesis
          unfolding st' using u' by (simp add: streak_invariant_def)
      qed
    qed
  next
    case (Uncomplete now k)
    from uncomplete_store [OF uq, of now k] show ?thesis
    proof
      assume "snd (uncomplete_habit_for_today now st k) = st"
      with Uncomplete same show ?thesis by simp
    next
      assume "\<exists>h. sqlite_int k \<and> find_habit st k = Some h
          \<and> select_completion st k (today now) \<noteq> None
          \<and> snd (uncomplete_habit_for_today now st k)
              = update_streak (delete_completion st k (today now)) k
                  (spec_streak (completion_dates st k - {today now}))
                  (spec_last_completed (completion_dates st k - {today now}))"
      then obtain hk where fk: "find_habit st k = Some hk"
        and snd: "snd (uncomplete_habit_for_today now st k)
              = update_streak (delete_completion st k (today now)) k
                  (spec_streak (completion_dates st k - {today now}))
                  (spec_last_completed (completion_dates st k - {today now}))"
        by blast
      let ?S = "completion_dates st k - {today now}"
      let ?st' = "update_streak (delete_completion st k (today now)) k
                    (spec_streak ?S) (spec_last_completed ?S)"
      have st': "apply_op st op = ?st'" using Uncomplete snd by simp
      have u': "unique_completions ?st'"
        using uq by (simp add: unique_completions_update_streak unique_completions_delete)
      show ?thesis
      proof (cases "k = hid")
        case False
        then have "find_habit ?st' hid = find_habit st hid"
          and "completion_dates ?st' hid = completion_dates st hid"
          by (simp_all add: find_habit_update_streak find_habit_delete_completion
                completion_dates_update_streak completion_dates_delete)
        with same u' show ?thesis
          unfolding st' by (rule streak_invariant_other_habit)
      next
        case True
        have d': "completion_dates ?st' hid = completion_dates st hid - {today now}"
          using True by (simp add: completion_dates_update_streak completion_dates_delete)
        have h': "find_habit ?st' hid
            = Some (hk\<lparr>streak := spec_streak ?S, last_done := spec_last_completed ?S\<rparr>)"
          using fk True
          by (simp add: find_habit_update_streak find_habit_delete_completion)
        have "cache_consistent ?st' hid"
          unfolding cache_consistent_def h' d' using True by simp
        moreover have "\<forall>d \<in> completion_dates ?st' hid. d \<le> op_date op"
          unfolding d' using bd assms(2) by auto
        ultimately show ?thesis
          unfolding st' using u' by (simp add: streak_invariant_def)
      qed
    qed
  qed
qed

lemma run_invariant:
  assumes "streak_invariant st hid t"
    and "sorted (map op_date ops)"
    and "\<forall>op \<in> set ops. t \<le> op_date op"
  shows "\<exists>t'. streak_invariant (run st ops) hid t'"
  using assms
proof (induction ops arbitrary: st t)
  case Nil
  then show ?case by (auto simp add: run_def)
next
  case (Cons op ops)
  from Cons.prems(3) have "t \<le> op_date op" by simp
  with Cons.prems(1) have "streak_invariant (apply_op st op) hid (op_date op)"
    by (rule apply_op_invariant)
  moreover from Cons.prems(2) have "sorted (map op_date ops)"
    and "\<forall>x \<in> set ops. op_date op \<le> op_date x" by simp_all
  ultimately have "\<exists>t'. streak_invariant (run (apply_op st op) ops) hid t'"
    by (rule Cons.IH)
  then show ?case by (simp add: run_def)
qed

section \<open>Rows changed by the other operations\<close>

lemma rows_related_map:
  assumes "\<And>h. R h h" and "\<And>h. R h (f h)"
  shows "list_all2 R xs (map (\<lambda>h. if P h then f h else h) xs)"
  using assms by (simp add: list_all2_map2 list_all2_same)

lemma name_reminder_only:
  assumes "h' = h\<lparr>name := a, reminder_time := b\<rparr>"
  shows "streak h' = streak h" and "last_done h' = last_done h"
  using assms by simp_all

lemma is_archived_only:
  assumes "h' = h\<lparr>is_archived := a\<rparr>"
  shows "streak h' = streak h" and "last_done h' = last_done h"
  using assms by simp_all

lemma rows_name_reminder_only:
  assumes "list_all2 (\<lambda>h h'. h' = h\<lparr>name := name h', reminder_time := reminder_time h'\<rparr>)
             xs ys"
  shows "map streak ys = map streak xs \<and> map last_done ys = map last_done xs"
  using assms
proof (induction rule: list_all2_induct)
  case Nil
  show ?case by simp
next
  case (Cons x xs y ys)
  from Cons.hyps(1) have "streak y = streak x" and "last_done y = last_done x"
    by (rule name_reminder_only)+
  with Cons.IH show ?case by simp
qed

lemma rows_is_archived_only:
  assumes "list_all2 (\<lambda>h h'. h' = h\<lparr>is_archived := is_archived h'\<rparr>) xs ys"
  shows "map streak ys = map streak xs \<and> map last_done ys = map last_done xs"
  using assms
proof (induction rule: list_all2_induct)
  case Nil
  show ?case by simp
next
  case (Cons x xs y ys)
  from Cons.hyps(1) have "streak y = streak x" and "last_done y = last_done x"
    by (rule is_archived_only)+
  with Cons.IH show ?case by simp
qed

lemma update_habit_rows:
  "list_all2 (\<lambda>h h'. h' = h\<lparr>name := name h', reminder_time := reminder_time h'\<rparr>)
     (habits st) (habits (snd (update_habit st hid n r)))"
proof -
  let ?R = "\<lambda>h h'. h' = h\<lparr>name := name h', reminder_time := reminder_time h'\<rparr>"
  let ?F = "\<lambda>h. (case r of None \<Rightarrow> (case map_option py_strip n of None \<Rightarrow> h | Some m \<Rightarrow> h\<lparr>name := m\<rparr>)
                  | Some x \<Rightarrow> (case map_option py_strip n of None \<Rightarrow> h | Some m \<Rightarrow> h\<lparr>name := m\<rparr>)
                       \<lparr>reminder_time := (if x \<noteq> [] then Some x else None)\<rparr>)"
  have same: "list_all2 ?R (habits st) (habits st)"
    by (simp add: list_all2_same)
  have upd: "list_all2 ?R (habits st) (map (\<lambda>h. if id_h h = hid then ?F h else h) (habits st))"
    by (rule rows_related_map) (simp_all split: option.splits)
  have "habits (snd (update_habit st hid n r)) = habits st
      \<or> habits (snd (update_habit st hid n r))
          = map (\<lambda>h. if id_h h = hid then ?F h else h) (habits st)"
    by (simp add: update_habit_def select_habit_def Let_def split: option.splits)
  then show ?thesis
  proof
    assume e: "habits (snd (update_habit st hid n r)) = habits st"
    show ?thesis unfolding e by (rule same)
  next
    assume e: "habits (snd (update_habit st hid n r))
          = map (\<lambda>h. if id_h h = hid then ?F h else h) (habits st)"
    show ?thesis unfolding e by (rule upd)
  qed
qed

lemma archive_habit_rows:
  "list_all2 (\<lambda>h h'. h' = h\<lparr>is_archived := is_archived h'\<rparr>)
     (habits st) (habits (snd (archive_habit st hid)))"
  by (simp add: archive_habit_def set_archived_def list_all2_map2 list_all2_same)

lemma unarchive_habit_rows:
  "list_all2 (\<lambda>h h'. h' = h\<lparr>is_archived := is_archived h'\<rparr>)
     (habits st) (habits (snd (unarchive_habit st hid)))"
  by (simp add: unarchive_habit_def set_archived_def list_all2_map2 list_all2_same)

lemma update_habit_completions:
  "habit_completions (snd (update_habit st hid n r)) = habit_completions st"
  by (simp add: update_habit_def select_habit_def Let_def split: option.splits)

lemma archive_habit_completions:
  "habit_completions (snd (archive_habit st hid)) = habit_completions st"
  "habit_completions (snd (unarchive_habit st hid)) = habit_completions st"
  by (simp_all add: archive_habit_def unarchive_habit_def set_archived_def)

section \<open>The example stores, evaluated\<close>

lemmas table_defs =
  find_habit_def select_habit_def sqlite_int_def select_completion_def update_streak_def
  insert_completion_def delete_completion_def select_dates_desc_def

lemma fresh_store_eq:
  "fresh_store =
     \<lparr>habits = [\<lparr>id_h = 1, name = ''Run'', streak = 0, last_done = None, created_at = ''T'',
                  reminder_time = None, is_archived = False\<rparr>],
      habit_completions = [], habits_seq = 1\<rparr>"
  by (simp add: fresh_store_def at_day_def empty_store_def add_new_habit_def insert_habit_def
        next_habit_id_def json_of_str_def Let_def)

lemma store_1_2_4_eq:
  "store_1_2_4 =
     \<lparr>habits = [\<lparr>id_h = 1, name = ''Run'', streak = 1, last_done = Some 4, created_at = ''T'',
                  reminder_time = None, is_archived = False\<rparr>],
      habit_completions = [\<lparr>habit_id = 1, date_c = 1, created_at_c = ''T''\<rparr>,
                           \<lparr>habit_id = 1, date_c = 2, created_at_c = ''T''\<rparr>,
                           \<lparr>habit_id = 1, date_c = 4, created_at_c = ''T''\<rparr>],
      habits_seq = 1\<rparr>"
  by (simp add: store_1_2_4_def fresh_store_eq run_def at_day_def complete_habit_for_today_def
        table_defs Let_def)

lemma migrated_store_eq:
  "migrated_store =
     \<lparr>habits = [\<lparr>id_h = 1, name = ''Read'', streak = 5, last_done = Some 9, created_at = ''T'',
                  reminder_time = None, is_archived = False\<rparr>],
      habit_completions = [], habits_seq = 1\<rparr>"
  by (simp add: migrated_store_def at_day_def empty_store_def migrate_habits_def
        migrate_habit_def insert_habit_def next_habit_id_def sqlite_int_def Let_def)

lemma full_streak_store_eq:
  "full_streak_store =
     \<lparr>habits = [\<lparr>id_h = 1, name = ''Walk'', streak = 9223372036854775807, last_done = Some 4,
                  created_at = ''T'', reminder_time = None, is_archived = False\<rparr>],
      habit_completions = [], habits_seq = 1\<rparr>"
  by (simp add: full_streak_store_def at_day_def empty_store_def migrate_habits_def
        migrate_habit_def insert_habit_def next_habit_id_def sqlite_int_def Let_def)

lemma store_1_2_4_dates: "completion_dates store_1_2_4 1 = {1, 2, 4}"
  by (auto simp add: store_1_2_4_eq completion_dates_def)

lemma spec_streak_1_2_4: "spec_streak {1, 2, 4} = 1" "spec_last_completed {1, 2, 4} = Some 4"
  by (simp_all add: spec_streak_def spec_last_completed_def eval_nat_numeral)

lemma sqlite_int_1: "sqlite_int 1"
  by (simp add: sqlite_int_def)

section \<open>Completing a habit\<close>

text \<open>
  C1, as the code has it. For a habit that exists and has no completion row for today,
  and whose streak plus 1 is still a signed 64-bit integer in case today is the day
  after \<open>last_done\<close>, \<open>complete_habit_for_today\<close> (and \<open>HabitManager.complete_habit\<close>)
  appends a completion row for today, sets \<open>last_done\<close> to today, and returns and stores
  the new streak \<open>n\<close>: 1 when the habit had no \<open>last_done\<close>; the old streak plus 1 when
  today is exactly one day after \<open>last_done\<close>; 1 for every other gap.
\<close>

theorem complete_computes_streak:
  assumes "select_habit st hid = Returns (Some h)"
    and "select_completion st hid (today now) = None"
    and "last_done h = Some (today now - 1) \<longrightarrow> sqlite_int (streak h + 1)"
  shows "\<exists>n st'.
      complete_habit_for_today now st hid
        = (Returns (Some [(''success'', JBool True), (''new_streak'', JInt n)], None), st')
    \<and> complete_habit now st hid
        = ((True, ''Habit completed!'',
            Some [(''new_streak'', JInt n), (''completion_date'', JDate (today now))]), st')
    \<and> habit_completions st'
        = habit_completions st
          @ [\<lparr>habit_id = hid, date_c = today now, created_at_c = isoformat now\<rparr>]
    \<and> select_habit st' hid = Returns (Some (h\<lparr>streak := n, last_done := Some (today now)\<rparr>))
    \<and> (last_done h = None \<longrightarrow> n = 1)
    \<and> (\<forall>ld. last_done h = Some ld \<and> today now - ld = 1 \<longrightarrow> n = streak h + 1)
    \<and> (\<forall>ld. last_done h = Some ld \<and> today now - ld \<noteq> 1 \<longrightarrow> n = 1)"
proof -
  let ?n = "calculate_new_streak h (today now)"
  let ?st' = "update_streak (insert_completion st hid (today now) (isoformat now)) hid
                ?n (Some (today now))"
  from assms(1) have int: "sqlite_int hid" and fh: "find_habit st hid = Some h"
    by (simp_all add: select_habit_Returns)
  have fits: "sqlite_int ?n"
  proof (cases "last_done h")
    case None
    then show ?thesis by (simp add: calculate_new_streak_def sqlite_int_1)
  next
    case (Some ld)
    show ?thesis
    proof (cases "today now - ld = 1")
      case True
      then have "ld = today now - 1" by simp
      with Some assms(3) True show ?thesis by (simp add: calculate_new_streak_def)
    next
      case False
      with Some show ?thesis by (simp add: calculate_new_streak_def sqlite_int_1)
    qed
  qed
  have a: "complete_habit_for_today now st hid
        = (Returns (Some [(''success'', JBool True), (''new_streak'', JInt ?n)], None), ?st')"
    using int fh assms(2) fits by (rule complete_result)
  have b: "complete_habit now st hid
        = ((True, ''Habit completed!'',
            Some [(''new_streak'', JInt ?n), (''completion_date'', JDate (today now))]), ?st')"
    using int fh assms(2) fits by (rule complete_manager_result)
  have c: "habit_completions ?st'
        = habit_completions st
          @ [\<lparr>habit_id = hid, date_c = today now, created_at_c = isoformat now\<rparr>]"
    by (simp add: update_streak_def insert_completion_def)
  have d: "select_habit ?st' hid = Returns (Some (h\<lparr>streak := ?n, last_done := Some (today now)\<rparr>))"
    using int fh
    by (simp add: select_habit_Returns find_habit_update_streak find_habit_insert_completion)
  have e: "last_done h = None \<longrightarrow> ?n = 1"
    and f: "\<forall>ld. last_done h = Some ld \<and> today now - ld = 1 \<longrightarrow> ?n = streak h + 1"
    and g: "\<forall>ld. last_done h = Some ld \<and> today now - ld \<noteq> 1 \<longrightarrow> ?n = 1"
    by (simp_all add: calculate_new_streak_def)
  show ?thesis
    by (intro exI [of _ ?n] exI [of _ ?st'] conjI a b c d e f g)
qed

theorem complete_computes_streak_witness:
  "select_habit store_1_2_4 1
     = Returns (Some \<lparr>id_h = 1, name = ''Run'', streak = 1, last_done = Some 4,
                      created_at = ''T'', reminder_time = None, is_archived = False\<rparr>)
   \<and> select_completion store_1_2_4 1 (today (at_day 5)) = None
   \<and> sqlite_int (1 + 1)
   \<and> fst (complete_habit_for_today (at_day 5) store_1_2_4 1)
       = Returns (Some [(''success'', JBool True), (''new_streak'', JInt 2)], None)
   \<and> fst (complete_habit (at_day 5) store_1_2_4 1)
       = (True, ''Habit completed!'',
          Some [(''new_streak'', JInt 2), (''completion_date'', JDate 5)])
   \<and> select_habit (snd (complete_habit_for_today (at_day 5) store_1_2_4 1)) 1
       = Returns (Some \<lparr>id_h = 1, name = ''Run'', streak = 2, last_done = Some 5,
                        created_at = ''T'', reminder_time = None, is_archived = False\<rparr>)"
  using complete_computes_streak [of store_1_2_4 1
      "\<lparr>id_h = 1, name = ''Run'', streak = 1, last_done = Some 4, created_at = ''T'',
        reminder_time = None, is_archived = False\<rparr>" "at_day 5"]
  by (simp add: store_1_2_4_eq at_day_def complete_habit_for_today_def complete_habit_def
        calculate_new_streak_def table_defs Let_def)

text \<open>
  C1 as stated, for every habit, fails at the largest streak the column can hold: the
  habit has streak \<open>2^63 - 1\<close> and \<open>last_done\<close> day 4, and is completed on day 5. The
  new streak \<open>2^63\<close> cannot be bound; \<open>complete_habit_for_today\<close> raises
  \<open>OverflowError\<close>, \<open>HabitManager.complete_habit\<close> returns a failure, and neither
  changes the store.
\<close>

theorem complete_overflow_counterexample:
  "select_habit full_streak_store 1
     = Returns (Some \<lparr>id_h = 1, name = ''Walk'', streak = 9223372036854775807,
                      last_done = Some 4, created_at = ''T'', reminder_time = None,
                      is_archived = False\<rparr>)
   \<and> select_completion full_streak_store 1 (today (at_day 5)) = None
   \<and> today (at_day 5) - 4 = 1
   \<and> complete_habit_for_today (at_day 5) full_streak_store 1
       = (Raises ''OverflowError'', full_streak_store)
   \<and> complete_habit (at_day 5) full_streak_store 1
       = ((False, ''Python int too large to convert to SQLite INTEGER'', None),
          full_streak_store)"
  by (simp add: full_streak_store_eq at_day_def complete_habit_for_today_def complete_habit_def
        calculate_new_streak_def table_defs Let_def)

text \<open>
  C9. When the cached \<open>last_done\<close> of a habit is already today but no completion row
  for today exists (as after the migration, which copies \<open>last_done\<close> and the streak
  and writes no completion rows), the call succeeds, the gap 0 takes the branch of the
  non-consecutive days, and the streak becomes 1 whatever it was.
\<close>

theorem complete_when_last_done_is_today:
  assumes "select_habit st hid = Returns (Some h)"
    and "last_done h = Some (today now)"
    and "select_completion st hid (today now) = None"
  shows "fst (complete_habit_for_today now st hid)
           = Returns (Some [(''success'', JBool True), (''new_streak'', JInt 1)], None)
       \<and> select_habit (snd (complete_habit_for_today now st hid)) hid
           = Returns (Some (h\<lparr>streak := 1, last_done := Some (today now)\<rparr>))"
proof -
  from assms(1) have int: "sqlite_int hid" and fh: "find_habit st hid = Some h"
    by (simp_all add: select_habit_Returns)
  have n: "calculate_new_streak h (today now) = 1"
    using assms(2) by (simp add: calculate_new_streak_def)
  have fits: "sqlite_int (calculate_new_streak h (today now))"
    unfolding n by (rule sqlite_int_1)
  from complete_result [OF int fh assms(3) fits] int fh show ?thesis
    unfolding n
    by (simp add: select_habit_Returns find_habit_update_streak find_habit_insert_completion)
qed

theorem complete_when_last_done_is_today_witness:
  "select_habit migrated_store 1
     = Returns (Some \<lparr>id_h = 1, name = ''Read'', streak = 5, last_done = Some 9,
                      created_at = ''T'', reminder_time = None, is_archived = False\<rparr>)
   \<and> today (at_day 9) = 9
   \<and> select_completion migrated_store 1 (today (at_day 9)) = None
   \<and> fst (complete_habit_for_today (at_day 9) migrated_store 1)
       = Returns (Some [(''success'', JBool True), (''new_streak'', JInt 1)], None)
   \<and> select_habit (snd (complete_habit_for_today (at_day 9) migrated_store 1)) 1
       = Returns (Some \<lparr>id_h = 1, name = ''Read'', streak = 1, last_done = Some 9,
                        created_at = ''T'', reminder_time = None, is_archived = False\<rparr>)"
proof -
  have h: "select_habit migrated_store 1
     = Returns (Some \<lparr>id_h = 1, name = ''Read'', streak = 5, last_done = Some 9,
                      created_at = ''T'', reminder_time = None, is_archived = False\<rparr>)"
    by (simp add: migrated_store_eq select_habit_def find_habit_def sqlite_int_def)
  have l: "last_done \<lparr>id_h = 1, name = ''Read'', streak = 5, last_done = Some 9, created_at = ''T'',
             reminder_time = None, is_archived = False\<rparr> = Some (today (at_day 9))"
    by (simp add: at_day_def)
  have c: "select_completion migrated_store 1 (today (at_day 9)) = None"
    by (simp add: migrated_store_eq select_completion_def)
  from complete_when_last_done_is_today [OF h l c] h c show ?thesis
    by (simp add: at_day_def)
qed

section \<open>Undoing a completion\<close>

text \<open>
  C2. For a habit with a completion row for today, in a table that satisfies its
  \<open>UNIQUE(habit_id, date)\<close> constraint, \<open>uncomplete_habit_for_today\<close> deletes that row
  and recomputes from the rows that remain: with none left the streak is 0 and
  \<open>last_done\<close> is \<open>None\<close>; otherwise \<open>last_done\<close> is the latest remaining date and the
  streak \<open>n\<close> is what the backward walk from that date counts, that is, the days
  \<open>Max, Max - 1, \<dots>, Max - n + 1\<close> are all completed and \<open>Max - n\<close> is not.
\<close>

theorem uncomplete_recomputes_streak:
  assumes "select_habit st hid = Returns (Some h)"
    and "select_completion st hid (today now) \<noteq> None"
    and "unique_completions st"
  shows "\<exists>n ld st'.
      uncomplete_habit_for_today now st hid
        = (Returns (Some [(''success'', JBool True), (''new_streak'', JInt n)], None), st')
    \<and> habit_completions st'
        = filter (\<lambda>c. \<not> (habit_id c = hid \<and> date_c c = today now)) (habit_completions st)
    \<and> completion_dates st' hid = completion_dates st hid - {today now}
    \<and> select_habit st' hid = Returns (Some (h\<lparr>streak := n, last_done := ld\<rparr>))
    \<and> (completion_dates st' hid = {} \<longrightarrow> n = 0 \<and> ld = None)
    \<and> (completion_dates st' hid \<noteq> {} \<longrightarrow>
          ld = Some (Max (completion_dates st' hid))
        \<and> n = consecutive_days_ending (card (completion_dates st' hid))
                (completion_dates st' hid) (Max (completion_dates st' hid))
        \<and> 1 \<le> n
        \<and> (\<forall>i. 0 \<le> i \<and> i < n \<longrightarrow> Max (completion_dates st' hid) - i \<in> completion_dates st' hid)
        \<and> Max (completion_dates st' hid) - n \<notin> completion_dates st' hid)"
proof -
  let ?S = "completion_dates st hid - {today now}"
  let ?st' = "update_streak (delete_completion st hid (today now)) hid
                (spec_streak ?S) (spec_last_completed ?S)"
  from assms(1) have int: "sqlite_int hid" and fh: "find_habit st hid = Some h"
    by (simp_all add: select_habit_Returns)
  have fin: "finite ?S" by (simp add: completion_dates_def)
  have r: "uncomplete_habit_for_today now st hid
        = (Returns (Some [(''success'', JBool True), (''new_streak'', JInt (spec_streak ?S))],
                    None), ?st')"
    using int fh assms(2,3) by (rule uncomplete_result)
  have a: "habit_completions ?st'
        = filter (\<lambda>c. \<not> (habit_id c = hid \<and> date_c c = today now)) (habit_completions st)"
    by (simp add: update_streak_def delete_completion_def)
  have b: "completion_dates ?st' hid = ?S"
    by (simp add: completion_dates_update_streak completion_dates_delete)
  have c: "select_habit ?st' hid
        = Returns (Some (h\<lparr>streak := spec_streak ?S, last_done := spec_last_completed ?S\<rparr>))"
    using int fh
    by (simp add: select_habit_Returns find_habit_update_streak find_habit_delete_completion)
  have d: "?S = {} \<longrightarrow> spec_streak ?S = 0 \<and> spec_last_completed ?S = None"
    by (simp add: spec_streak_def spec_last_completed_def)
  have e: "?S \<noteq> {} \<longrightarrow>
          spec_last_completed ?S = Some (Max ?S)
        \<and> spec_streak ?S = consecutive_days_ending (card ?S) ?S (Max ?S)
        \<and> 1 \<le> spec_streak ?S
        \<and> (\<forall>i. 0 \<le> i \<and> i < spec_streak ?S \<longrightarrow> Max ?S - i \<in> ?S)
        \<and> Max ?S - spec_streak ?S \<notin> ?S"
  proof
    assume ne: "?S \<noteq> {}"
    from spec_streak_run [OF fin ne] spec_streak_positive [OF fin ne] ne
    show "spec_last_completed ?S = Some (Max ?S)
        \<and> spec_streak ?S = consecutive_days_ending (card ?S) ?S (Max ?S)
        \<and> 1 \<le> spec_streak ?S
        \<and> (\<forall>i. 0 \<le> i \<and> i < spec_streak ?S \<longrightarrow> Max ?S - i \<in> ?S)
        \<and> Max ?S - spec_streak ?S \<notin> ?S"
      by (simp add: spec_streak_def spec_last_completed_def)
  qed
  from r a b c d e show ?thesis
    unfolding b by (intro exI conjI) (assumption | simp only: b)+
qed

theorem uncomplete_recomputes_streak_witness:
  "select_habit store_1_2_4 1
     = Returns (Some \<lparr>id_h = 1, name = ''Run'', streak = 1, last_done = Some 4,
                      created_at = ''T'', reminder_time = None, is_archived = False\<rparr>)
   \<and> select_completion store_1_2_4 1 (today (at_day 4)) \<noteq> None
   \<and> unique_completions store_1_2_4
   \<and> fst (uncomplete_habit_for_today (at_day 4) store_1_2_4 1)
       = Returns (Some [(''success'', JBool True), (''new_streak'', JInt 2)], None)
   \<and> select_habit (snd (uncomplete_habit_for_today (at_day 4) store_1_2_4 1)) 1
       = Returns (Some \<lparr>id_h = 1, name = ''Run'', streak = 2, last_done = Some 2,
                        created_at = ''T'', reminder_time = None, is_archived = False\<rparr>)"
  using uncomplete_recomputes_streak [of store_1_2_4 1
      "\<lparr>id_h = 1, name = ''Run'', streak = 1, last_done = Some 4, created_at = ''T'',
        reminder_time = None, is_archived = False\<rparr>" "at_day 4"]
  by (simp add: store_1_2_4_eq unique_completions_def at_day_def uncomplete_habit_for_today_def
        table_defs Let_def)

text \<open>
  C3, as the code has it. For a habit with no completion row for today,
  \<open>complete\<close> followed by \<open>uncomplete\<close> on the same day leaves the completion rows as
  they were and, where the \<open>complete\<close> call returns, sets streak and \<open>last_done\<close> to the
  values derived from those rows (where it raises, the store is left as it was). The
  values after the two calls are the values before them whenever the cache agreed with
  the rows then.
\<close>

theorem complete_then_uncomplete:
  assumes "select_habit st hid = Returns (Some h)"
    and "select_completion st hid (today now) = None"
    and "unique_completions st"
    and "today now' = today now"
  shows "((\<exists>r. fst (complete_habit_for_today now st hid) = Returns r) \<longrightarrow>
            select_habit
              (snd (uncomplete_habit_for_today now'
                      (snd (complete_habit_for_today now st hid)) hid)) hid
            = Returns (Some (h\<lparr>streak := spec_streak (completion_dates st hid),
                               last_done := spec_last_completed (completion_dates st hid)\<rparr>)))
       \<and> (\<not> (\<exists>r. fst (complete_habit_for_today now st hid) = Returns r) \<longrightarrow>
            snd (uncomplete_habit_for_today now'
                   (snd (complete_habit_for_today now st hid)) hid) = st)
       \<and> habit_completions
           (snd (uncomplete_habit_for_today now' (snd (complete_habit_for_today now st hid)) hid))
         = habit_completions st
       \<and> (cache_consistent st hid \<longrightarrow>
            select_habit
              (snd (uncomplete_habit_for_today now' (snd (complete_habit_for_today now st hid)) hid))
              hid
            = Returns (Some h))"
proof -
  let ?n = "calculate_new_streak h (today now)"
  let ?S = "completion_dates st hid"
  from assms(1) have int: "sqlite_int hid" and fh: "find_habit st hid = Some h"
    by (simp_all add: select_habit_Returns)
  note ret = complete_returns_iff [OF int fh assms(2)]
  show ?thesis
  proof (cases "sqlite_int ?n")
    case False
    have s1: "snd (complete_habit_for_today now st hid) = st"
      using complete_overflow(1) [OF int fh assms(2) False] by simp
    have s2: "snd (uncomplete_habit_for_today now' st hid) = st"
      using int fh assms(2,4)
      by (simp add: uncomplete_habit_for_today_def select_habit_def)
    from False ret assms(1) show ?thesis
      unfolding s1 s2 by simp
  next
    case True
    define st1 where "st1 = update_streak (insert_completion st hid (today now) (isoformat now))
                  hid ?n (Some (today now))"
    have s1: "snd (complete_habit_for_today now st hid) = st1"
      using complete_result [OF int fh assms(2) True] by (simp add: st1_def)
    have h1: "find_habit st1 hid = Some (h\<lparr>streak := ?n, last_done := Some (today now)\<rparr>)"
      using fh
      by (simp add: st1_def find_habit_update_streak find_habit_insert_completion)
    have c1: "select_completion st1 hid (today now') \<noteq> None"
      by (simp add: st1_def assms(4) select_completion_update_streak
            select_completion_insert_same)
    have u1: "unique_completions st1"
      using assms(2,3)
      by (simp add: st1_def unique_completions_update_streak unique_completions_insert)
    have notin: "today now \<notin> ?S"
      using assms(2) by (simp add: select_completion_None_iff)
    have d1: "completion_dates st1 hid - {today now'} = ?S"
      using notin
      by (simp add: st1_def assms(4) completion_dates_update_streak completion_dates_insert)
    let ?st2 = "update_streak (delete_completion st1 hid (today now')) hid
                  (spec_streak ?S) (spec_last_completed ?S)"
    have s2: "snd (uncomplete_habit_for_today now' st1 hid) = ?st2"
      using uncomplete_result [OF int h1 c1 u1] by (simp add: d1)
    have a: "select_habit ?st2 hid
          = Returns (Some (h\<lparr>streak := spec_streak ?S, last_done := spec_last_completed ?S\<rparr>))"
      using int
      by (simp add: select_habit_Returns find_habit_update_streak
            find_habit_delete_completion h1)
    have b: "habit_completions ?st2 = habit_completions st"
      using filter_completion_appended [OF assms(2), of "isoformat now"]
      by (simp add: st1_def update_streak_def delete_completion_def insert_completion_def
            assms(4))
    have c: "cache_consistent st hid \<longrightarrow> select_habit ?st2 hid = Returns (Some h)"
      unfolding a using fh by (simp add: cache_consistent_def)
    from a b c True ret show ?thesis unfolding s1 s2 by simp
  qed
qed

theorem complete_then_uncomplete_witness:
  "select_completion store_1_2_4 1 (today (at_day 5)) = None
   \<and> unique_completions store_1_2_4
   \<and> cache_consistent store_1_2_4 1
   \<and> fst (complete_habit_for_today (at_day 5) store_1_2_4 1)
       = Returns (Some [(''success'', JBool True), (''new_streak'', JInt 2)], None)
   \<and> select_habit
        (snd (uncomplete_habit_for_today (at_day 5)
                (snd (complete_habit_for_today (at_day 5) store_1_2_4 1)) 1)) 1
       = Returns (Some \<lparr>id_h = 1, name = ''Run'', streak = 1, last_done = Some 4,
                        created_at = ''T'', reminder_time = None, is_archived = False\<rparr>)
   \<and> habit_completions
        (snd (uncomplete_habit_for_today (at_day 5)
                (snd (complete_habit_for_today (at_day 5) store_1_2_4 1)) 1))
       = habit_completions store_1_2_4"
proof -
  have h: "select_habit store_1_2_4 1
     = Returns (Some \<lparr>id_h = 1, name = ''Run'', streak = 1, last_done = Some 4,
                      created_at = ''T'', reminder_time = None, is_archived = False\<rparr>)"
    by (simp add: store_1_2_4_eq select_habit_def find_habit_def sqlite_int_def)
  have c: "select_completion store_1_2_4 1 (today (at_day 5)) = None"
    by (simp add: store_1_2_4_eq select_completion_def at_day_def)
  have u: "unique_completions store_1_2_4"
    by (simp add: store_1_2_4_eq unique_completions_def)
  have k: "cache_consistent store_1_2_4 1"
    unfolding cache_consistent_def store_1_2_4_dates spec_streak_1_2_4
    using h by (simp add: select_habit_Returns)
  have r: "fst (complete_habit_for_today (at_day 5) store_1_2_4 1)
       = Returns (Some [(''success'', JBool True), (''new_streak'', JInt 2)], None)"
    by (simp add: store_1_2_4_eq at_day_def complete_habit_for_today_def table_defs Let_def)
  from complete_then_uncomplete [OF h c u refl] c u k r show ?thesis
    by (simp add: store_1_2_4_dates spec_streak_1_2_4)
qed

text \<open>
  C3 as stated, for every habit, fails on a habit whose cache does not agree with its
  rows: the migrated habit has streak 5 and \<open>last_done\<close> day 9 and no completion rows;
  completing and uncompleting it on day 10 leaves streak 0 and no \<open>last_done\<close>.
\<close>

theorem round_trip_counterexample:
  "select_completion migrated_store 1 (today (at_day 10)) = None
   \<and> select_habit migrated_store 1
       = Returns (Some \<lparr>id_h = 1, name = ''Read'', streak = 5, last_done = Some 9,
                        created_at = ''T'', reminder_time = None, is_archived = False\<rparr>)
   \<and> select_habit
        (snd (uncomplete_habit_for_today (at_day 10)
                (snd (complete_habit_for_today (at_day 10) migrated_store 1)) 1)) 1
       = Returns (Some \<lparr>id_h = 1, name = ''Read'', streak = 0, last_done = None,
                        created_at = ''T'', reminder_time = None, is_archived = False\<rparr>)"
  by (simp add: migrated_store_eq at_day_def complete_habit_for_today_def
        uncomplete_habit_for_today_def table_defs Let_def)

section \<open>The cache is derivable from the rows\<close>

text \<open>
  C4. Start from a store in which the habit is fresh (streak 0, no \<open>last_done\<close>, no
  completion rows) and apply any sequence of \<open>complete\<close> and \<open>uncomplete\<close> calls, on
  this or any other habit, whose dates never decrease. In the store reached, the stored
  streak is the count of consecutive days ending at the latest completion and the
  stored \<open>last_done\<close> is the latest completion date; both are 0 and \<open>None\<close> when the
  habit has no completion rows.
\<close>

theorem cached_fields_rederivable:
  assumes "select_habit st0 hid = Returns (Some h0)"
    and "streak h0 = 0" and "last_done h0 = None"
    and "completion_dates st0 hid = {}"
    and "unique_completions st0"
    and "sorted (map op_date ops)"
  shows "\<exists>h. select_habit (run st0 ops) hid = Returns (Some h)
       \<and> streak h = spec_streak (completion_dates (run st0 ops) hid)
       \<and> last_done h = spec_last_completed (completion_dates (run st0 ops) hid)
       \<and> (completion_dates (run st0 ops) hid = {} \<longrightarrow> streak h = 0 \<and> last_done h = None)
       \<and> (completion_dates (run st0 ops) hid \<noteq> {} \<longrightarrow>
             last_done h = Some (Max (completion_dates (run st0 ops) hid))
           \<and> 1 \<le> streak h
           \<and> (\<forall>i. 0 \<le> i \<and> i < streak h \<longrightarrow>
                 Max (completion_dates (run st0 ops) hid) - i \<in> completion_dates (run st0 ops) hid)
           \<and> Max (completion_dates (run st0 ops) hid) - streak h
               \<notin> completion_dates (run st0 ops) hid)"
proof -
  let ?S = "completion_dates (run st0 ops) hid"
  from assms(1) have int: "sqlite_int hid" and fh: "find_habit st0 hid = Some h0"
    by (simp_all add: select_habit_Returns)
  define t where "t = (case ops of [] \<Rightarrow> 0 | op # _ \<Rightarrow> op_date op)"
  have lb: "\<forall>op \<in> set ops. t \<le> op_date op"
    using assms(6) by (cases ops) (auto simp add: t_def)
  have "streak_invariant st0 hid t"
    using fh assms(2-5)
    by (simp add: streak_invariant_def cache_consistent_def spec_streak_def
          spec_last_completed_def)
  from run_invariant [OF this assms(6) lb]
  have cc: "cache_consistent (run st0 ops) hid"
    by (auto simp add: streak_invariant_def)
  then obtain h where h: "find_habit (run st0 ops) hid = Some h"
    and s: "streak h = spec_streak ?S" and l: "last_done h = spec_last_completed ?S"
    by (auto simp add: cache_consistent_def split: option.splits)
  from h int have h': "select_habit (run st0 ops) hid = Returns (Some h)"
    by (simp add: select_habit_Returns)
  have fin: "finite ?S" by (simp add: completion_dates_def)
  have e: "?S = {} \<longrightarrow> streak h = 0 \<and> last_done h = None"
    by (simp add: s l spec_streak_def spec_last_completed_def)
  have n: "?S \<noteq> {} \<longrightarrow>
             last_done h = Some (Max ?S) \<and> 1 \<le> streak h
           \<and> (\<forall>i. 0 \<le> i \<and> i < streak h \<longrightarrow> Max ?S - i \<in> ?S)
           \<and> Max ?S - streak h \<notin> ?S"
  proof
    assume ne: "?S \<noteq> {}"
    from spec_streak_run [OF fin ne] spec_streak_positive [OF fin ne] ne
    show "last_done h = Some (Max ?S) \<and> 1 \<le> streak h
           \<and> (\<forall>i. 0 \<le> i \<and> i < streak h \<longrightarrow> Max ?S - i \<in> ?S)
           \<and> Max ?S - streak h \<notin> ?S"
      unfolding s l by (simp add: spec_last_completed_def)
  qed
  from h' s l e n show ?thesis by blast
qed

theorem cached_fields_rederivable_witness:
  "select_habit fresh_store 1
     = Returns (Some \<lparr>id_h = 1, name = ''Run'', streak = 0, last_done = None,
                      created_at = ''T'', reminder_time = None, is_archived = False\<rparr>)
   \<and> completion_dates fresh_store 1 = {}
   \<and> unique_completions fresh_store
   \<and> sorted (map op_date [Complete (at_day 1) 1, Complete (at_day 2) 1, Complete (at_day 4) 1,
                           Uncomplete (at_day 4) 1])
   \<and> (\<exists>h. select_habit
              (run fresh_store [Complete (at_day 1) 1, Complete (at_day 2) 1,
                                Complete (at_day 4) 1, Uncomplete (at_day 4) 1]) 1
            = Returns (Some h)
          \<and> streak h = 2 \<and> last_done h = Some 2
          \<and> streak h = spec_streak (completion_dates
              (run fresh_store [Complete (at_day 1) 1, Complete (at_day 2) 1,
                                Complete (at_day 4) 1, Uncomplete (at_day 4) 1]) 1))"
proof -
  have h: "select_habit fresh_store 1
     = Returns (Some \<lparr>id_h = 1, name = ''Run'', streak = 0, last_done = None,
                      created_at = ''T'', reminder_time = None, is_archived = False\<rparr>)"
    by (simp add: fresh_store_eq select_habit_def find_habit_def sqlite_int_def)
  have d: "completion_dates fresh_store 1 = {}"
    by (simp add: fresh_store_eq completion_dates_def)
  have u: "unique_completions fresh_store"
    by (simp add: fresh_store_eq unique_completions_def)
  have s: "sorted (map op_date [Complete (at_day 1) 1, Complete (at_day 2) 1,
                                Complete (at_day 4) 1, Uncomplete (at_day 4) 1])"
    by (simp add: at_day_def)
  have r: "select_habit
              (run fresh_store [Complete (at_day 1) 1, Complete (at_day 2) 1,
                                Complete (at_day 4) 1, Uncomplete (at_day 4) 1]) 1
          = Returns (Some \<lparr>id_h = 1, name = ''Run'', streak = 2, last_done = Some 2,
                           created_at = ''T'', reminder_time = None, is_archived = False\<rparr>)"
    by (simp add: fresh_store_eq run_def at_day_def complete_habit_for_today_def
          uncomplete_habit_for_today_def table_defs Let_def)
  from cached_fields_rederivable [OF h _ _ d u s] h d u s r show ?thesis by auto
qed

section \<open>Error handling\<close>



text \<open>
  C6. For a habit that exists and has no completion row for today,
  \<open>uncomplete_habit_for_today\<close> returns the error \<open>Habit not completed today\<close> and the
  store as it was; for a habit that exists, the call succeeds exactly when a completion
  row for today exists.
\<close>

theorem not_completed_today:
  assumes "select_habit st hid = Returns (Some h)"
  shows "(select_completion st hid (today now) = None \<longrightarrow>
            uncomplete_habit_for_today now st hid
              = (Returns (None, Some ''Habit not completed today''), st))
       \<and> ((\<exists>r st'. uncomplete_habit_for_today now st hid = (Returns (Some r, None), st'))
            \<longleftrightarrow> select_completion st hid (today now) \<noteq> None)"
proof -
  from assms have "sqlite_int hid" and "find_habit st hid = Some h"
    by (simp_all add: select_habit_Returns)
  then show ?thesis
    by (auto simp add: uncomplete_habit_for_today_def select_habit_def Let_def
          split: option.splits list.splits)
qed

theorem not_completed_today_witness:
  "select_habit fresh_store 1
     = Returns (Some \<lparr>id_h = 1, name = ''Run'', streak = 0, last_done = None,
                      created_at = ''T'', reminder_time = None, is_archived = False\<rparr>)
   \<and> select_completion fresh_store 1 (today (at_day 3)) = None
   \<and> uncomplete_habit_for_today (at_day 3) fresh_store 1
       = (Returns (None, Some ''Habit not completed today''), fresh_store)"
proof -
  have h: "select_habit fresh_store 1
     = Returns (Some \<lparr>id_h = 1, name = ''Run'', streak = 0, last_done = None,
                      created_at = ''T'', reminder_time = None, is_archived = False\<rparr>)"
    by (simp add: fresh_store_eq select_habit_def find_habit_def sqlite_int_def)
  have c: "select_completion fresh_store 1 (today (at_day 3)) = None"
    by (simp add: fresh_store_eq select_completion_def)
  from not_completed_today [OF h, of "at_day 3"] h c show ?thesis by simp
qed

text \<open>
  C7, as the code has it. A habit id that is a signed 64-bit integer, as every id of the
  table is, and has no row in \<open>habits\<close>: \<open>complete_habit_for_today\<close> and
  \<open>uncomplete_habit_for_today\<close> both return the pair \<open>(None, "Habit not found")\<close>, a
  returned value and not an exception, with the store as it was; the message differs
  from the messages of the two other precondition failures.
\<close>

theorem habit_not_found:
  assumes "sqlite_int hid" and "find_habit st hid = None"
  shows "complete_habit_for_today now st hid = (Returns (None, Some ''Habit not found''), st)
       \<and> uncomplete_habit_for_today now st hid = (Returns (None, Some ''Habit not found''), st)
       \<and> ''Habit not found'' \<noteq> ''Habit already completed today''
       \<and> ''Habit not found'' \<noteq> ''Habit not completed today''"
  using assms
  by (simp add: complete_habit_for_today_def uncomplete_habit_for_today_def select_habit_def)

theorem habit_not_found_witness:
  "sqlite_int 7 \<and> find_habit fresh_store 7 = None
   \<and> complete_habit_for_today (at_day 100) fresh_store 7
       = (Returns (None, Some ''Habit not found''), fresh_store)
   \<and> uncomplete_habit_for_today (at_day 100) fresh_store 7
       = (Returns (None, Some ''Habit not found''), fresh_store)"
proof -
  have i: "sqlite_int 7" by (simp add: sqlite_int_def)
  have h: "find_habit fresh_store 7 = None"
    by (simp add: fresh_store_eq find_habit_def)
  show ?thesis
    using i h habit_not_found [OF i h, of "at_day 100"] by simp
qed

text \<open>
  C7 as stated, for every habit id that does not exist, fails at the id \<open>2^63\<close>: no row
  has it, and both operations raise \<open>OverflowError\<close> from their first \<open>SELECT\<close>
  instead of returning an error pair.
\<close>

theorem habit_not_found_counterexample:
  "find_habit fresh_store 9223372036854775808 = None
   \<and> complete_habit_for_today (at_day 100) fresh_store 9223372036854775808
       = (Raises ''OverflowError'', fresh_store)
   \<and> uncomplete_habit_for_today (at_day 100) fresh_store 9223372036854775808
       = (Raises ''OverflowError'', fresh_store)"
  by (simp add: fresh_store_eq find_habit_def complete_habit_for_today_def
        uncomplete_habit_for_today_def select_habit_def sqlite_int_def)

section \<open>The day acted upon\<close>

text \<open>
  C8, as the code has it. The two operations take the habit id only. The day acted
  upon is always the date of the system clock: a successful \<open>complete\<close> appends a row
  dated today and sets \<open>last_done\<close> to today, a successful \<open>uncomplete\<close> deletes the
  rows of the habit dated today. A call that supplies a date raises \<open>TypeError\<close> and
  leaves the store as it was.
\<close>

theorem operations_act_on_system_date:
  "((\<exists>r. fst (complete_habit_for_today now st hid) = Returns (r, None)) \<longrightarrow>
       habit_completions (snd (complete_habit_for_today now st hid))
         = habit_completions st
           @ [\<lparr>habit_id = hid, date_c = today now, created_at_c = isoformat now\<rparr>]
     \<and> (\<exists>h'. select_habit (snd (complete_habit_for_today now st hid)) hid = Returns (Some h')
            \<and> last_done h' = Some (today now)))
   \<and> ((\<exists>r. fst (uncomplete_habit_for_today now st hid) = Returns (r, None)) \<longrightarrow>
       habit_completions (snd (uncomplete_habit_for_today now st hid))
         = filter (\<lambda>c. \<not> (habit_id c = hid \<and> date_c c = today now)) (habit_completions st))
   \<and> call_service complete_habit_for_today now st hid None
       = complete_habit_for_today now st hid
   \<and> call_service uncomplete_habit_for_today now st hid None
       = uncomplete_habit_for_today now st hid
   \<and> call_service complete_habit_for_today now st hid (Some d) = (Raises ''TypeError'', st)
   \<and> call_service uncomplete_habit_for_today now st hid (Some d) = (Raises ''TypeError'', st)"
proof -
  have a: "(\<exists>r. fst (complete_habit_for_today now st hid) = Returns (r, None)) \<longrightarrow>
       habit_completions (snd (complete_habit_for_today now st hid))
         = habit_completions st
           @ [\<lparr>habit_id = hid, date_c = today now, created_at_c = isoformat now\<rparr>]
     \<and> (\<exists>h'. select_habit (snd (complete_habit_for_today now st hid)) hid = Returns (Some h')
            \<and> last_done h' = Some (today now))"
  proof
    assume "\<exists>r. fst (complete_habit_for_today now st hid) = Returns (r, None)"
    then obtain r where e: "fst (complete_habit_for_today now st hid) = Returns (r, None)" ..
    then have int: "sqlite_int hid"
      by (cases "sqlite_int hid") (simp_all add: complete_habit_for_today_def select_habit_def)
    from e int obtain h where h: "find_habit st hid = Some h"
      by (cases "find_habit st hid")
         (simp_all add: complete_habit_for_today_def select_habit_def)
    from e int h have c: "select_completion st hid (today now) = None"
      by (cases "select_completion st hid (today now)")
         (simp_all add: complete_habit_for_today_def select_habit_def)
    from e have fits: "sqlite_int (calculate_new_streak h (today now))"
      using complete_returns_iff [OF int h c] by auto
    have st': "snd (complete_habit_for_today now st hid)
         = update_streak (insert_completion st hid (today now) (isoformat now)) hid
             (calculate_new_streak h (today now)) (Some (today now))"
      using complete_result [OF int h c fits] by simp
    have x: "habit_completions (insert_completion st hid (today now) (isoformat now))
         = habit_completions st
           @ [\<lparr>habit_id = hid, date_c = today now, created_at_c = isoformat now\<rparr>]"
      by (simp add: insert_completion_def)
    show "habit_completions (snd (complete_habit_for_today now st hid))
         = habit_completions st
           @ [\<lparr>habit_id = hid, date_c = today now, created_at_c = isoformat now\<rparr>]
     \<and> (\<exists>h'. select_habit (snd (complete_habit_for_today now st hid)) hid = Returns (Some h')
            \<and> last_done h' = Some (today now))"
      unfolding st' using h x int
      by (simp add: select_habit_Returns find_habit_update_streak
            find_habit_insert_completion habit_completions_update_streak)
  qed
  have b: "(\<exists>r. fst (uncomplete_habit_for_today now st hid) = Returns (r, None)) \<longrightarrow>
       habit_completions (snd (uncomplete_habit_for_today now st hid))
         = filter (\<lambda>c. \<not> (habit_id c = hid \<and> date_c c = today now)) (habit_completions st)"
    by (simp add: uncomplete_habit_for_today_def select_habit_def Let_def update_streak_def
          delete_completion_def split: option.splits list.splits)
  from a b show ?thesis by (simp add: call_service_def)
qed

theorem operations_act_on_system_date_witness:
  "fst (complete_habit_for_today (at_day 10) fresh_store 1)
     = Returns (Some [(''success'', JBool True), (''new_streak'', JInt 1)], None)
   \<and> habit_completions (snd (complete_habit_for_today (at_day 10) fresh_store 1))
       = [\<lparr>habit_id = 1, date_c = 10, created_at_c = ''T''\<rparr>]
   \<and> fst (uncomplete_habit_for_today (at_day 4) store_1_2_4 1)
       = Returns (Some [(''success'', JBool True), (''new_streak'', JInt 2)], None)
   \<and> map date_c (habit_completions (snd (uncomplete_habit_for_today (at_day 4) store_1_2_4 1)))
       = [1, 2]"
proof -
  have c: "fst (complete_habit_for_today (at_day 10) fresh_store 1)
     = Returns (Some [(''success'', JBool True), (''new_streak'', JInt 1)], None)"
    by (simp add: fresh_store_eq at_day_def complete_habit_for_today_def table_defs Let_def)
  have u: "fst (uncomplete_habit_for_today (at_day 4) store_1_2_4 1)
       = Returns (Some [(''success'', JBool True), (''new_streak'', JInt 2)], None)"
    by (simp add: store_1_2_4_eq at_day_def uncomplete_habit_for_today_def table_defs Let_def)
  from operations_act_on_system_date [of "at_day 10" fresh_store 1 5] c
  have c': "habit_completions (snd (complete_habit_for_today (at_day 10) fresh_store 1))
         = habit_completions fresh_store
           @ [\<lparr>habit_id = 1, date_c = today (at_day 10), created_at_c = isoformat (at_day 10)\<rparr>]"
    by blast
  from operations_act_on_system_date [of "at_day 4" store_1_2_4 1 5] u
  have u': "habit_completions (snd (uncomplete_habit_for_today (at_day 4) store_1_2_4 1))
         = filter (\<lambda>c. \<not> (habit_id c = 1 \<and> date_c c = today (at_day 4)))
             (habit_completions store_1_2_4)"
    by blast
  show ?thesis
    unfolding c' u' using c u by (simp add: fresh_store_eq store_1_2_4_eq at_day_def)
qed

text \<open>
  C8 as stated fails where a date is supplied: on day 10, a call of \<open>complete\<close> with
  the date 5 does not complete day 5, and a call of \<open>uncomplete\<close> with the date 4
  does not remove the completion of day 4; both raise \<open>TypeError\<close>.
\<close>

theorem supplied_date_counterexample:
  "call_service complete_habit_for_today (at_day 10) fresh_store 1 (Some 5)
     = (Raises ''TypeError'', fresh_store)
   \<and> select_completion fresh_store 1 5 = None
   \<and> call_service uncomplete_habit_for_today (at_day 10) store_1_2_4 1 (Some 4)
     = (Raises ''TypeError'', store_1_2_4)
   \<and> select_completion store_1_2_4 1 4 \<noteq> None"
  by (simp add: call_service_def fresh_store_eq store_1_2_4_eq select_completion_def)

section \<open>Operations that do not touch the streak\<close>

text \<open>
  C10. \<open>update_habit\<close>, \<open>archive_habit\<close> and \<open>unarchive_habit\<close> leave the completion
  rows, and the streak and \<open>last_done\<close> of every habit, as they were. Row by row, the
  table \<open>habits\<close> after \<open>update_habit\<close> differs from the table before in \<open>name\<close> and
  \<open>reminder_time\<close> at most, and after \<open>archive_habit\<close> or \<open>unarchive_habit\<close> in
  \<open>is_archived\<close> at most.
\<close>

theorem non_streak_operations_frame:
  "habit_completions (snd (update_habit st hid n r)) = habit_completions st
   \<and> list_all2 (\<lambda>h h'. h' = h\<lparr>name := name h', reminder_time := reminder_time h'\<rparr>)
        (habits st) (habits (snd (update_habit st hid n r)))
   \<and> map streak (habits (snd (update_habit st hid n r))) = map streak (habits st)
   \<and> map last_done (habits (snd (update_habit st hid n r))) = map last_done (habits st)
   \<and> habit_completions (snd (archive_habit st hid)) = habit_completions st
   \<and> list_all2 (\<lambda>h h'. h' = h\<lparr>is_archived := is_archived h'\<rparr>)
        (habits st) (habits (snd (archive_habit st hid)))
   \<and> map streak (habits (snd (archive_habit st hid))) = map streak (habits st)
   \<and> map last_done (habits (snd (archive_habit st hid))) = map last_done (habits st)
   \<and> habit_completions (snd (unarchive_habit st hid)) = habit_completions st
   \<and> list_all2 (\<lambda>h h'. h' = h\<lparr>is_archived := is_archived h'\<rparr>)
        (habits st) (habits (snd (unarchive_habit st hid)))
   \<and> map streak (habits (snd (unarchive_habit st hid))) = map streak (habits st)
   \<and> map last_done (habits (snd (unarchive_habit st hid))) = map last_done (habits st)"
  using update_habit_rows [of st hid n r] archive_habit_rows [of st hid]
    unarchive_habit_rows [of st hid]
    rows_name_reminder_only [OF update_habit_rows [of st hid n r]]
    rows_is_archived_only [OF archive_habit_rows [of st hid]]
    rows_is_archived_only [OF unarchive_habit_rows [of st hid]]
  by (simp add: update_habit_completions archive_habit_completions)

end
